theory Spec2Isabelle
  imports Complex_Main "HOL-Library.AList"
begin

section \<open>Data model of the server (src/server/index.js)\<close>

text \<open>
  A cell is the object literal created in \<open>generateBoardWithSeed\<close>; a board is an array
  of rows of cells.  Reading \<open>board[r][c].f\<close> outside the arrays throws a TypeError in
  JavaScript (\<open>board[r]\<close> or \<open>board[r][c]\<close> is \<open>undefined\<close>), which the model makes a value.
\<close>

record cell =
  isMine :: bool
  isRevealed :: bool
  isFlagged :: bool
  adjacentMines :: nat

type_synonym board = "cell list list"

datatype error = TypeError

definition cellAt :: "board \<Rightarrow> nat \<Rightarrow> nat \<Rightarrow> cell option" where
  "cellAt b r c =
     (if r < length b then (if c < length (b ! r) then Some (b ! r ! c) else None) else None)"

definition setCell :: "board \<Rightarrow> nat \<Rightarrow> nat \<Rightarrow> cell \<Rightarrow> board" where
  "setCell b r c x = b[r := (b ! r)[c := x]]"

text \<open>The shape every board made by \<open>generateBoardWithSeed\<close> has: \<open>rows\<close> rows of \<open>cols\<close> cells.\<close>

definition wfBoard :: "nat \<Rightarrow> nat \<Rightarrow> board \<Rightarrow> bool" where
  "wfBoard rows cols b = (length b = rows \<and> list_all (\<lambda>row. length row = cols) b)"

section \<open>checkWin\<close>

text \<open>
  The inner loop over \<open>c\<close> and the outer loop over \<open>r\<close>.  \<open>Inr False\<close> is the early
  \<open>return false\<close>; \<open>Inr True\<close> from the inner loop means that it ran to its end.
\<close>

function checkWinRow :: "board \<Rightarrow> nat \<Rightarrow> nat \<Rightarrow> nat \<Rightarrow> error + bool" where
  "checkWinRow b r cols c =
     (if c < cols then
        (case cellAt b r c of
           None \<Rightarrow> Inl TypeError
         | Some x \<Rightarrow>
             if \<not> isMine x \<and> \<not> isRevealed x then Inr False
             else checkWinRow b r cols (Suc c))
      else Inr True)"
  by pat_completeness auto
termination
  by (relation "measure (\<lambda>(b, r, cols, c). cols - c)") auto

function checkWinRows :: "board \<Rightarrow> nat \<Rightarrow> nat \<Rightarrow> nat \<Rightarrow> error + bool" where
  "checkWinRows b rows cols r =
     (if r < rows then
        (case checkWinRow b r cols 0 of
           Inl e \<Rightarrow> Inl e
         | Inr ok \<Rightarrow> if ok then checkWinRows b rows cols (Suc r) else Inr False)
      else Inr True)"
  by pat_completeness auto
termination
  by (relation "measure (\<lambda>(b, rows, cols, r). rows - r)") auto

definition checkWin :: "board \<Rightarrow> nat \<Rightarrow> nat \<Rightarrow> error + bool" where
  "checkWin b rows cols = checkWinRows b rows cols 0"

text \<open>Counting over a board, for stating what the loops compute.\<close>

definition countCells :: "(cell \<Rightarrow> bool) \<Rightarrow> board \<Rightarrow> nat" where
  "countCells P b = sum_list (map (\<lambda>row. length (filter P row)) b)"

definition revealedSafe :: "cell \<Rightarrow> bool" where
  "revealedSafe x = (\<not> isMine x \<and> isRevealed x)"

definition allSafeRevealed :: "board \<Rightarrow> bool" where
  "allSafeRevealed b = list_all (list_all (\<lambda>x. isMine x \<or> isRevealed x)) b"

definition sameButFlags :: "board \<Rightarrow> board \<Rightarrow> bool" where
  "sameButFlags b b' =
     list_all2 (list_all2 (\<lambda>x y. isMine y = isMine x \<and> isRevealed y = isRevealed x)) b b'"

declare checkWinRow.simps [simp del] checkWinRows.simps [simp del]

lemma cellAt_wf:
  "wfBoard rows cols b \<Longrightarrow> r < rows \<Longrightarrow> c < cols \<Longrightarrow> cellAt b r c = Some (b ! r ! c)"
  by (simp add: wfBoard_def cellAt_def list_all_length)

lemma checkWinRow_wf:
  "wfBoard rows cols b \<Longrightarrow> r < rows \<Longrightarrow>
   checkWinRow b r cols c =
     Inr (\<forall>j. c \<le> j \<and> j < cols \<longrightarrow> isMine (b ! r ! j) \<or> isRevealed (b ! r ! j))"
proof (induction b r cols c rule: checkWinRow.induct)
  case (1 b r cols c)
  show ?case
  proof (cases "c < cols")
    case False
    then show ?thesis by (auto simp: checkWinRow.simps [of b r cols c])
  next
    case True
    have at: "cellAt b r c = Some (b ! r ! c)"
      using cellAt_wf [OF "1.prems"(1) "1.prems"(2) True] .
    show ?thesis
    proof (cases "\<not> isMine (b ! r ! c) \<and> \<not> isRevealed (b ! r ! c)")
      case True
      with \<open>c < cols\<close> at show ?thesis
        by (auto simp: checkWinRow.simps [of b r cols c])
    next
      case False
      have ih: "checkWinRow b r cols (Suc c) =
          Inr (\<forall>j. Suc c \<le> j \<and> j < cols \<longrightarrow> isMine (b ! r ! j) \<or> isRevealed (b ! r ! j))"
        using "1.IH" [OF True at False "1.prems"] .
      have eq: "(\<forall>j. c \<le> j \<and> j < cols \<longrightarrow> isMine (b ! r ! j) \<or> isRevealed (b ! r ! j)) =
            (\<forall>j. Suc c \<le> j \<and> j < cols \<longrightarrow> isMine (b ! r ! j) \<or> isRevealed (b ! r ! j))"
        using False by (metis Suc_leI le_neq_implies_less Suc_leD)
      have step: "checkWinRow b r cols c = checkWinRow b r cols (Suc c)"
        using True at False by (auto simp: checkWinRow.simps [of b r cols c])
      show ?thesis by (simp only: step ih eq)
    qed
  qed
qed

lemma checkWinRows_wf:
  "wfBoard rows cols b \<Longrightarrow>
   checkWinRows b rows cols r =
     Inr (\<forall>i j. r \<le> i \<and> i < rows \<and> j < cols \<longrightarrow> isMine (b ! i ! j) \<or> isRevealed (b ! i ! j))"
proof (induction b rows cols r rule: checkWinRows.induct)
  case (1 b rows cols r)
  show ?case
  proof (cases "r < rows")
    case False
    then show ?thesis by (auto simp: checkWinRows.simps [of b rows cols r])
  next
    case True
    let ?rowok = "\<forall>j. 0 \<le> j \<and> j < cols \<longrightarrow> isMine (b ! r ! j) \<or> isRevealed (b ! r ! j)"
    have row: "checkWinRow b r cols 0 = Inr ?rowok"
      using checkWinRow_wf [OF "1.prems" True] .
    show ?thesis
    proof (cases ?rowok)
      case False
      then have "\<not> (\<forall>i j. r \<le> i \<and> i < rows \<and> j < cols \<longrightarrow>
                      isMine (b ! i ! j) \<or> isRevealed (b ! i ! j))"
        using True by auto
      then have eq: "(\<forall>i j. r \<le> i \<and> i < rows \<and> j < cols \<longrightarrow>
                      isMine (b ! i ! j) \<or> isRevealed (b ! i ! j)) = False"
        by simp
      have "checkWinRows b rows cols r = Inr False"
        using True row False by (auto simp: checkWinRows.simps [of b rows cols r])
      then show ?thesis by (simp only: eq)
    next
      case rowok: True
      have ih: "checkWinRows b rows cols (Suc r) =
          Inr (\<forall>i j. Suc r \<le> i \<and> i < rows \<and> j < cols \<longrightarrow>
                 isMine (b ! i ! j) \<or> isRevealed (b ! i ! j))"
        using "1.IH" [OF True row rowok "1.prems"] .
      have eq: "(\<forall>i j. r \<le> i \<and> i < rows \<and> j < cols \<longrightarrow> isMine (b ! i ! j) \<or> isRevealed (b ! i ! j)) =
            (\<forall>i j. Suc r \<le> i \<and> i < rows \<and> j < cols \<longrightarrow> isMine (b ! i ! j) \<or> isRevealed (b ! i ! j))"
        using rowok by (metis Suc_leI le_neq_implies_less Suc_leD le0)
      have step: "checkWinRows b rows cols r = checkWinRows b rows cols (Suc r)"
        using True row rowok by (auto simp: checkWinRows.simps [of b rows cols r])
      show ?thesis by (simp only: step ih eq)
    qed
  qed
qed

lemma allSafeRevealed_nth:
  "wfBoard rows cols b \<Longrightarrow>
   allSafeRevealed b =
     (\<forall>i j. i < rows \<and> j < cols \<longrightarrow> isMine (b ! i ! j) \<or> isRevealed (b ! i ! j))"
  by (fastforce simp: wfBoard_def allSafeRevealed_def list_all_length)

lemma checkWin_wf: "wfBoard rows cols b \<Longrightarrow> checkWin b rows cols = Inr (allSafeRevealed b)"
  by (simp add: checkWin_def checkWinRows_wf allSafeRevealed_nth)


definition hiddenSafe :: "cell \<Rightarrow> bool" where
  "hiddenSafe x = (\<not> isMine x \<and> \<not> isRevealed x)"

lemma row_partition:
  "length (filter revealedSafe row) + length (filter isMine row) + length (filter hiddenSafe row)
     = length row"
  by (induction row) (auto simp: revealedSafe_def hiddenSafe_def)

lemma board_partition:
  "wfBoard rows cols b \<Longrightarrow>
   countCells revealedSafe b + countCells isMine b + countCells hiddenSafe b = rows * cols"
proof (induction b arbitrary: rows)
  case Nil
  then show ?case by (simp add: wfBoard_def countCells_def)
next
  case (Cons row b)
  from Cons.prems obtain n where n: "rows = Suc n" "wfBoard n cols b" "length row = cols"
    by (auto simp: wfBoard_def)
  from Cons.IH [OF n(2)] row_partition [of row] n(1,3) show ?case
    by (simp add: countCells_def)
qed

lemma allSafeRevealed_hidden: "allSafeRevealed b = (countCells hiddenSafe b = 0)"
  by (induction b)
     (auto simp: allSafeRevealed_def countCells_def hiddenSafe_def list_all_iff filter_empty_conv)

lemma allSafeRevealed_count:
  assumes "wfBoard rows cols b"
  shows "allSafeRevealed b = (countCells revealedSafe b = rows * cols - countCells isMine b)"
  using board_partition [OF assms] by (auto simp: allSafeRevealed_hidden)

lemma sameButFlags_wf: "sameButFlags b b' \<Longrightarrow> wfBoard rows cols b \<Longrightarrow> wfBoard rows cols b'"
  by (auto simp: sameButFlags_def wfBoard_def list_all2_conv_all_nth list_all_length)

lemma sameButFlags_allSafeRevealed:
  "sameButFlags b b' \<Longrightarrow> allSafeRevealed b' = allSafeRevealed b"
  by (auto simp: sameButFlags_def allSafeRevealed_def list_all2_conv_all_nth list_all_length)

text \<open>
  C6.  On a board of \<open>rows\<close> rows of \<open>cols\<close> cells, \<open>checkWin\<close> returns true exactly when every
  cell that is not a mine is revealed, which is the same as the number of revealed non-mine
  cells being the number of cells minus the number of mines; with fewer revealed cells it
  returns false; and two boards that differ only in their flags (and adjacency numbers)
  give the same result.
\<close>

theorem checkWin_iff_all_safe_revealed:
  assumes "wfBoard rows cols b"
  shows "checkWin b rows cols = Inr (allSafeRevealed b)
       \<and> checkWin b rows cols
           = Inr (countCells revealedSafe b = rows * cols - countCells isMine b)
       \<and> (countCells revealedSafe b < rows * cols - countCells isMine b
            \<longrightarrow> checkWin b rows cols = Inr False)
       \<and> (\<forall>b'. sameButFlags b b' \<longrightarrow> checkWin b' rows cols = checkWin b rows cols)"
proof -
  have w: "checkWin b rows cols = Inr (allSafeRevealed b)"
    using assms by (rule checkWin_wf)
  have c: "allSafeRevealed b = (countCells revealedSafe b = rows * cols - countCells isMine b)"
    using assms by (rule allSafeRevealed_count)
  have f: "checkWin b' rows cols = checkWin b rows cols" if "sameButFlags b b'" for b'
    using that assms by (simp add: checkWin_wf sameButFlags_wf sameButFlags_allSafeRevealed)
  from w c f show ?thesis by auto
qed

theorem checkWin_iff_all_safe_revealed_witness:
  "wfBoard 1 2
     [[\<lparr>isMine = True, isRevealed = False, isFlagged = True, adjacentMines = 0\<rparr>,
       \<lparr>isMine = False, isRevealed = False, isFlagged = False, adjacentMines = 1\<rparr>]]
   \<and> countCells revealedSafe
     [[\<lparr>isMine = True, isRevealed = False, isFlagged = True, adjacentMines = 0\<rparr>,
       \<lparr>isMine = False, isRevealed = False, isFlagged = False, adjacentMines = 1\<rparr>]]
     < 1 * 2 - countCells isMine
     [[\<lparr>isMine = True, isRevealed = False, isFlagged = True, adjacentMines = 0\<rparr>,
       \<lparr>isMine = False, isRevealed = False, isFlagged = False, adjacentMines = 1\<rparr>]]
   \<and> checkWin
     [[\<lparr>isMine = True, isRevealed = False, isFlagged = True, adjacentMines = 0\<rparr>,
       \<lparr>isMine = False, isRevealed = False, isFlagged = False, adjacentMines = 1\<rparr>]] 1 2
     = Inr False
   \<and> sameButFlags
     [[\<lparr>isMine = True, isRevealed = False, isFlagged = True, adjacentMines = 0\<rparr>,
       \<lparr>isMine = False, isRevealed = False, isFlagged = False, adjacentMines = 1\<rparr>]]
     [[\<lparr>isMine = True, isRevealed = False, isFlagged = False, adjacentMines = 0\<rparr>,
       \<lparr>isMine = False, isRevealed = False, isFlagged = True, adjacentMines = 1\<rparr>]]
   \<and> checkWin
     [[\<lparr>isMine = True, isRevealed = False, isFlagged = False, adjacentMines = 0\<rparr>,
       \<lparr>isMine = False, isRevealed = False, isFlagged = True, adjacentMines = 1\<rparr>]] 1 2
     = Inr False"
  using checkWin_iff_all_safe_revealed
    [of 1 2 "[[\<lparr>isMine = True, isRevealed = False, isFlagged = True, adjacentMines = 0\<rparr>,
               \<lparr>isMine = False, isRevealed = False, isFlagged = False, adjacentMines = 1\<rparr>]]"]
  by (simp add: wfBoard_def sameButFlags_def allSafeRevealed_def countCells_def revealedSafe_def)

section \<open>getPlayerProgress\<close>

text \<open>
  What \<open>Math.round((revealedCells / nonMineCells) * 100)\<close> can be: a finite integer, or
  \<open>NaN\<close> (from \<open>0 / 0\<close>) or \<open>Infinity\<close> (from \<open>k / 0\<close> with \<open>k > 0\<close>).  \<open>Math.round\<close> rounds to
  the nearest integer, a tie upwards, which is \<^const>\<open>round\<close>.  The quotient is taken in the
  reals: the double rounding of the division and of the product is left out.
\<close>

datatype jsNumber = Num int | NaN | PosInfinity

definition roundPercent :: "nat \<Rightarrow> int \<Rightarrow> jsNumber" where
  "roundPercent revealedCells nonMineCells =
     (if nonMineCells = 0 then (if revealedCells = 0 then NaN else PosInfinity)
      else Num (round ((real revealedCells / real_of_int nonMineCells) * 100)))"

function countRevealedRow :: "board \<Rightarrow> nat \<Rightarrow> nat \<Rightarrow> nat \<Rightarrow> nat \<Rightarrow> error + nat" where
  "countRevealedRow b r cols c revealedCells =
     (if c < cols then
        (case cellAt b r c of
           None \<Rightarrow> Inl TypeError
         | Some x \<Rightarrow>
             countRevealedRow b r cols (Suc c)
               (if \<not> isMine x \<and> isRevealed x then Suc revealedCells else revealedCells))
      else Inr revealedCells)"
  by pat_completeness auto
termination
  by (relation "measure (\<lambda>(b, r, cols, c, k). cols - c)") auto

function countRevealedRows :: "board \<Rightarrow> nat \<Rightarrow> nat \<Rightarrow> nat \<Rightarrow> nat \<Rightarrow> error + nat" where
  "countRevealedRows b rows cols r revealedCells =
     (if r < rows then
        (case countRevealedRow b r cols 0 revealedCells of
           Inl e \<Rightarrow> Inl e
         | Inr k \<Rightarrow> countRevealedRows b rows cols (Suc r) k)
      else Inr revealedCells)"
  by pat_completeness auto
termination
  by (relation "measure (\<lambda>(b, rows, cols, r, k). rows - r)") auto

definition getPlayerProgress :: "board \<Rightarrow> nat \<Rightarrow> nat \<Rightarrow> nat \<Rightarrow> error + jsNumber" where
  "getPlayerProgress b rows cols mines =
     (let totalCells = rows * cols;
          nonMineCells = int totalCells - int mines
      in case countRevealedRows b rows cols 0 0 of
           Inl e \<Rightarrow> Inl e
         | Inr revealedCells \<Rightarrow> Inr (roundPercent revealedCells nonMineCells))"


text \<open>
  A medium board (16 x 16, 40 mines) on which 215 of the 216 cells without a mine are
  revealed: two rows of mines, a row of eight mines, the hidden cell and seven revealed
  cells, and thirteen rows of revealed cells.
\<close>

definition mineCell :: cell where
  "mineCell = \<lparr>isMine = True, isRevealed = False, isFlagged = False, adjacentMines = 0\<rparr>"

definition hiddenCell :: cell where
  "hiddenCell = \<lparr>isMine = False, isRevealed = False, isFlagged = False, adjacentMines = 1\<rparr>"

definition openCell :: cell where
  "openCell = \<lparr>isMine = False, isRevealed = True, isFlagged = False, adjacentMines = 0\<rparr>"


declare countRevealedRow.simps [simp del] countRevealedRows.simps [simp del]

lemma countRevealedRow_wf:
  "wfBoard rows cols b \<Longrightarrow> r < rows \<Longrightarrow> c \<le> cols \<Longrightarrow>
   countRevealedRow b r cols c k = Inr (k + length (filter revealedSafe (drop c (b ! r))))"
proof (induction b r cols c k rule: countRevealedRow.induct)
  case (1 b r cols c k)
  have len: "length (b ! r) = cols"
    using "1.prems" by (simp add: wfBoard_def list_all_length)
  show ?case
  proof (cases "c < cols")
    case False
    then have "countRevealedRow b r cols c k = Inr k"
      by (simp add: countRevealedRow.simps [of b r cols c k])
    with False "1.prems" len show ?thesis
      by simp
  next
    case True
    have at: "cellAt b r c = Some (b ! r ! c)"
      using cellAt_wf [OF "1.prems"(1) "1.prems"(2) True] .
    have dr: "drop c (b ! r) = (b ! r ! c) # drop (Suc c) (b ! r)"
      using True len by (simp add: Cons_nth_drop_Suc)
    have ih: "countRevealedRow b r cols (Suc c)
                (if \<not> isMine (b ! r ! c) \<and> isRevealed (b ! r ! c) then Suc k else k) =
              Inr ((if \<not> isMine (b ! r ! c) \<and> isRevealed (b ! r ! c) then Suc k else k)
                   + length (filter revealedSafe (drop (Suc c) (b ! r))))"
      using "1.IH" [OF True at "1.prems"(1) "1.prems"(2)] True by simp
    have "countRevealedRow b r cols c k =
          countRevealedRow b r cols (Suc c)
            (if \<not> isMine (b ! r ! c) \<and> isRevealed (b ! r ! c) then Suc k else k)"
      using True at by (simp add: countRevealedRow.simps [of b r cols c k])
    moreover have "revealedSafe (b ! r ! c) = (\<not> isMine (b ! r ! c) \<and> isRevealed (b ! r ! c))"
      by (simp add: revealedSafe_def)
    ultimately show ?thesis
      using ih dr by simp
  qed
qed

lemma countRevealedRows_wf:
  "wfBoard rows cols b \<Longrightarrow> r \<le> rows \<Longrightarrow>
   countRevealedRows b rows cols r k = Inr (k + countCells revealedSafe (drop r b))"
proof (induction b rows cols r k rule: countRevealedRows.induct)
  case (1 b rows cols r k)
  have len: "length b = rows"
    using "1.prems" by (simp add: wfBoard_def)
  show ?case
  proof (cases "r < rows")
    case False
    then have "countRevealedRows b rows cols r k = Inr k"
      by (simp add: countRevealedRows.simps [of b rows cols r k])
    with False "1.prems" len show ?thesis
      by (simp add: countCells_def)
  next
    case True
    have row: "countRevealedRow b r cols 0 k = Inr (k + length (filter revealedSafe (b ! r)))"
      using countRevealedRow_wf [OF "1.prems"(1) True, of 0 k] by simp
    have dr: "drop r b = (b ! r) # drop (Suc r) b"
      using True len by (simp add: Cons_nth_drop_Suc)
    have ih: "countRevealedRows b rows cols (Suc r) (k + length (filter revealedSafe (b ! r))) =
              Inr (k + length (filter revealedSafe (b ! r))
                   + countCells revealedSafe (drop (Suc r) b))"
      using "1.IH" [OF True row "1.prems"(1)] True by simp
    have "countRevealedRows b rows cols r k =
          countRevealedRows b rows cols (Suc r) (k + length (filter revealedSafe (b ! r)))"
      using True row by (simp add: countRevealedRows.simps [of b rows cols r k])
    with ih dr show ?thesis
      by (simp add: countCells_def)
  qed
qed

lemma getPlayerProgress_wf:
  "wfBoard rows cols b \<Longrightarrow>
   getPlayerProgress b rows cols mines =
     Inr (roundPercent (countCells revealedSafe b) (int (rows * cols) - int mines))"
  by (simp add: getPlayerProgress_def countRevealedRows_wf)












section \<open>floodReveal\<close>

text \<open>
  The work stack is a list with its top at the head.  The eight neighbours are pushed
  for \<open>dr = -1, 0, 1\<close> and \<open>dc = -1, 0, 1\<close> in this order, so the last one pushed,
  \<open>(cr + 1, cc + 1)\<close>, is popped first.  The matrix \<open>visited\<close>, all false at the start and
  indexed only inside the grid, is the set of the coordinates where it is true.
  \<open>newBoard\<close> starts as a deep copy of the caller's board, which as a value is the board.
\<close>

definition neighbours :: "int \<Rightarrow> int \<Rightarrow> (int \<times> int) list" where
  "neighbours cr cc =
     [(cr + 1, cc + 1), (cr + 1, cc), (cr + 1, cc - 1),
      (cr, cc + 1), (cr, cc - 1),
      (cr - 1, cc + 1), (cr - 1, cc), (cr - 1, cc - 1)]"

lemma card_grid_insert:
  fixes rows cols :: nat
  assumes "r < rows" "c < cols" "(r, c) \<notin> vis"
  shows "card (({..<rows} \<times> {..<cols}) - insert (r, c) vis)
         < card (({..<rows} \<times> {..<cols}) - vis)"
proof -
  have "(r, c) \<in> ({..<rows} \<times> {..<cols}) - vis"
    using assms by auto
  moreover have "finite (({..<rows} \<times> {..<cols}) - vis)"
    by simp
  ultimately have "card (({..<rows} \<times> {..<cols}) - vis - {(r, c)})
             < card (({..<rows} \<times> {..<cols}) - vis)"
    by (rule card_Diff1_less [rotated])
  moreover have "({..<rows} \<times> {..<cols}) - insert (r, c) vis
                 = ({..<rows} \<times> {..<cols}) - vis - {(r, c)}"
    by auto
  ultimately show ?thesis by simp
qed

function floodLoop ::
  "nat \<Rightarrow> nat \<Rightarrow> board \<Rightarrow> (nat \<times> nat) set \<Rightarrow> (int \<times> int) list \<Rightarrow> error + board" where
  "floodLoop rows cols newBoard visited [] = Inr newBoard"
| "floodLoop rows cols newBoard visited ((cr, cc) # stack) =
     (if cr < 0 \<or> cr \<ge> int rows \<or> cc < 0 \<or> cc \<ge> int cols \<or> (nat cr, nat cc) \<in> visited
      then floodLoop rows cols newBoard visited stack
      else
        (case cellAt newBoard (nat cr) (nat cc) of
           None \<Rightarrow> Inl TypeError
         | Some x \<Rightarrow>
             if isRevealed x \<or> isFlagged x then floodLoop rows cols newBoard visited stack
             else if adjacentMines x = 0 \<and> \<not> isMine x
             then floodLoop rows cols
                    (setCell newBoard (nat cr) (nat cc) (x\<lparr>isRevealed := True\<rparr>))
                    (insert (nat cr, nat cc) visited) (neighbours cr cc @ stack)
             else floodLoop rows cols
                    (setCell newBoard (nat cr) (nat cc) (x\<lparr>isRevealed := True\<rparr>))
                    (insert (nat cr, nat cc) visited) stack))"
  by pat_completeness auto
termination
  by (relation "inv_image (less_than <*lex*> less_than)
        (\<lambda>(rows, cols, b, vis, st). (card (({..<rows} \<times> {..<cols}) - vis), length st))")
     (auto intro!: card_grid_insert)

definition floodReveal :: "board \<Rightarrow> int \<Rightarrow> int \<Rightarrow> nat \<Rightarrow> nat \<Rightarrow> error + board" where
  "floodReveal board r c rows cols = floodLoop rows cols board {} [(r, c)]"



definition outside :: "nat \<Rightarrow> nat \<Rightarrow> (nat \<times> nat) set \<Rightarrow> int \<Rightarrow> int \<Rightarrow> bool" where
  "outside rows cols visited cr cc =
     (cr < 0 \<or> cr \<ge> int rows \<or> cc < 0 \<or> cc \<ge> int cols \<or> (nat cr, nat cc) \<in> visited)"

lemma floodLoop_skip:
  "outside rows cols visited cr cc \<Longrightarrow>
   floodLoop rows cols newBoard visited ((cr, cc) # stack)
     = floodLoop rows cols newBoard visited stack"
  by (simp add: outside_def)

lemma floodLoop_seen:
  "\<not> outside rows cols visited cr cc \<Longrightarrow> cellAt newBoard (nat cr) (nat cc) = Some x \<Longrightarrow>
   isRevealed x \<or> isFlagged x \<Longrightarrow>
   floodLoop rows cols newBoard visited ((cr, cc) # stack)
     = floodLoop rows cols newBoard visited stack"
  by (simp add: outside_def)

lemma floodLoop_visit:
  "\<not> outside rows cols visited cr cc \<Longrightarrow> cellAt newBoard (nat cr) (nat cc) = Some x \<Longrightarrow>
   \<not> (isRevealed x \<or> isFlagged x) \<Longrightarrow>
   floodLoop rows cols newBoard visited ((cr, cc) # stack)
     = floodLoop rows cols (setCell newBoard (nat cr) (nat cc) (x\<lparr>isRevealed := True\<rparr>))
         (insert (nat cr, nat cc) visited)
         (if adjacentMines x = 0 \<and> \<not> isMine x then neighbours cr cc @ stack else stack)"
  by (simp add: outside_def)

lemma floodLoop_expand:
  "\<not> outside rows cols visited cr cc \<Longrightarrow> cellAt newBoard (nat cr) (nat cc) = Some x \<Longrightarrow>
   \<not> (isRevealed x \<or> isFlagged x) \<Longrightarrow> adjacentMines x = 0 \<and> \<not> isMine x \<Longrightarrow>
   floodLoop rows cols newBoard visited ((cr, cc) # stack)
     = floodLoop rows cols (setCell newBoard (nat cr) (nat cc) (x\<lparr>isRevealed := True\<rparr>))
         (insert (nat cr, nat cc) visited) (neighbours cr cc @ stack)"
  by (simp add: outside_def)

lemma floodLoop_plain:
  "\<not> outside rows cols visited cr cc \<Longrightarrow> cellAt newBoard (nat cr) (nat cc) = Some x \<Longrightarrow>
   \<not> (isRevealed x \<or> isFlagged x) \<Longrightarrow> \<not> (adjacentMines x = 0 \<and> \<not> isMine x) \<Longrightarrow>
   floodLoop rows cols newBoard visited ((cr, cc) # stack)
     = floodLoop rows cols (setCell newBoard (nat cr) (nat cc) (x\<lparr>isRevealed := True\<rparr>))
         (insert (nat cr, nat cc) visited) stack"
  by (auto simp: outside_def)

lemma floodLoop_error:
  "\<not> outside rows cols visited cr cc \<Longrightarrow> cellAt newBoard (nat cr) (nat cc) = None \<Longrightarrow>
   floodLoop rows cols newBoard visited ((cr, cc) # stack) = Inl TypeError"
  by (simp add: outside_def)

lemma cellAt_setCell:
  "cellAt b r c = Some x \<Longrightarrow>
   cellAt (setCell b r c y) i j = (if i = r \<and> j = c then Some y else cellAt b i j)"
  by (auto simp: cellAt_def setCell_def nth_list_update split: if_splits)

lemma wfBoard_setCell: "wfBoard rows cols b \<Longrightarrow> wfBoard rows cols (setCell b r c y)"
proof (cases "r < length b")
  case True
  assume "wfBoard rows cols b"
  with True show ?thesis
    by (auto simp: wfBoard_def setCell_def list_all_length nth_list_update)
next
  case False
  assume "wfBoard rows cols b"
  with False show ?thesis
    by (simp add: wfBoard_def setCell_def list_update_beyond not_less)
qed

lemma floodLoop_wf:
  "wfBoard rows cols newBoard \<Longrightarrow>
   \<exists>b'. floodLoop rows cols newBoard visited stack = Inr b' \<and> wfBoard rows cols b'"
proof (induction rows cols newBoard visited stack rule: floodLoop.induct)
  case (1 rows cols newBoard visited)
  then show ?case by simp
next
  case (2 rows cols newBoard visited cr cc stack)
  show ?case
  proof (cases "outside rows cols visited cr cc")
    case True
    then have "cr < 0 \<or> cr \<ge> int rows \<or> cc < 0 \<or> cc \<ge> int cols \<or> (nat cr, nat cc) \<in> visited"
      by (simp add: outside_def)
    from "2.IH"(1) [OF this "2.prems"] show ?thesis
      by (simp only: floodLoop_skip [OF True])
  next
    case False
    then have no: "\<not> (cr < 0 \<or> cr \<ge> int rows \<or> cc < 0 \<or> cc \<ge> int cols \<or> (nat cr, nat cc) \<in> visited)"
      by (simp add: outside_def)
    let ?x = "newBoard ! nat cr ! nat cc"
    have at: "cellAt newBoard (nat cr) (nat cc) = Some ?x"
      using "2.prems" no by (intro cellAt_wf) auto
    let ?b = "setCell newBoard (nat cr) (nat cc) (?x\<lparr>isRevealed := True\<rparr>)"
    have wf': "wfBoard rows cols ?b"
      using "2.prems" by (rule wfBoard_setCell)
    show ?thesis
    proof (cases "isRevealed ?x \<or> isFlagged ?x")
      case True
      from "2.IH"(2) [OF no at True "2.prems"] show ?thesis
        by (simp only: floodLoop_seen [OF False at True])
    next
      case nf: False
      show ?thesis
      proof (cases "adjacentMines ?x = 0 \<and> \<not> isMine ?x")
        case True
        from "2.IH"(3) [OF no at nf True wf'] show ?thesis
          by (simp only: floodLoop_expand [OF False at nf True])
      next
        case na: False
        from "2.IH"(4) [OF no at nf na wf'] show ?thesis
          by (simp only: floodLoop_plain [OF False at nf na])
      qed
    qed
  qed
qed

lemma floodLoop_keeps_revealed:
  "floodLoop rows cols newBoard visited stack = Inr b' \<Longrightarrow>
   cellAt newBoard i j = Some y \<Longrightarrow> isRevealed y \<Longrightarrow>
   \<exists>z. cellAt b' i j = Some z \<and> isRevealed z"
proof (induction rows cols newBoard visited stack arbitrary: y rule: floodLoop.induct)
  case (1 rows cols newBoard visited)
  then show ?case by auto
next
  case (2 rows cols newBoard visited cr cc stack)
  show ?case
  proof (cases "outside rows cols visited cr cc")
    case True
    then have o: "cr < 0 \<or> cr \<ge> int rows \<or> cc < 0 \<or> cc \<ge> int cols \<or> (nat cr, nat cc) \<in> visited"
      by (simp add: outside_def)
    have "floodLoop rows cols newBoard visited stack = Inr b'"
      using "2.prems"(1) by (simp only: floodLoop_skip [OF True])
    from "2.IH"(1) [OF o this "2.prems"(2,3)] show ?thesis .
  next
    case False
    then have no: "\<not> (cr < 0 \<or> cr \<ge> int rows \<or> cc < 0 \<or> cc \<ge> int cols \<or> (nat cr, nat cc) \<in> visited)"
      by (simp add: outside_def)
    obtain x where at: "cellAt newBoard (nat cr) (nat cc) = Some x"
      using "2.prems"(1) floodLoop_error [OF False] by (cases "cellAt newBoard (nat cr) (nat cc)") auto
    let ?b = "setCell newBoard (nat cr) (nat cc) (x\<lparr>isRevealed := True\<rparr>)"
    have "\<exists>y'. cellAt ?b i j = Some y' \<and> isRevealed y'"
      using "2.prems"(2,3) by (auto simp: cellAt_setCell [OF at])
    then obtain y' where y': "cellAt ?b i j = Some y'" "isRevealed y'"
      by blast
    show ?thesis
    proof (cases "isRevealed x \<or> isFlagged x")
      case True
      have "floodLoop rows cols newBoard visited stack = Inr b'"
        using "2.prems"(1) by (simp only: floodLoop_seen [OF False at True])
      from "2.IH"(2) [OF no at True this "2.prems"(2,3)] show ?thesis .
    next
      case nf: False
      show ?thesis
      proof (cases "adjacentMines x = 0 \<and> \<not> isMine x")
        case True
        have "floodLoop rows cols ?b (insert (nat cr, nat cc) visited) (neighbours cr cc @ stack)
              = Inr b'"
          using "2.prems"(1) by (simp only: floodLoop_expand [OF False at nf True])
        from "2.IH"(3) [OF no at nf True this y'] show ?thesis .
      next
        case na: False
        have "floodLoop rows cols ?b (insert (nat cr, nat cc) visited) stack = Inr b'"
          using "2.prems"(1) by (simp only: floodLoop_plain [OF False at nf na])
        from "2.IH"(4) [OF no at nf na this y'] show ?thesis .
      qed
    qed
  qed
qed

lemma floodReveal_again:
  assumes "floodReveal b r c rows cols = Inr b'"
  shows "floodReveal b' r c rows cols = Inr b'"
proof (cases "outside rows cols {} r c")
  case True
  have "floodLoop rows cols b {} [(r, c)] = Inr b"
    by (simp add: floodLoop_skip [OF True] del: floodLoop.simps(2))
  with assms have "b' = b"
    by (simp add: floodReveal_def del: floodLoop.simps(2))
  then show ?thesis
    using assms by simp
next
  case False
  obtain x where at: "cellAt b (nat r) (nat c) = Some x"
    using assms floodLoop_error [OF False, of b "[]"]
    by (cases "cellAt b (nat r) (nat c)") (auto simp: floodReveal_def simp del: floodLoop.simps(2))
  show ?thesis
  proof (cases "isRevealed x \<or> isFlagged x")
    case True
    have "floodLoop rows cols b {} [(r, c)] = Inr b"
      by (simp add: floodLoop_seen [OF False at True] del: floodLoop.simps(2))
    with assms show ?thesis
      by (simp add: floodReveal_def del: floodLoop.simps(2))
  next
    case nf: False
    let ?b = "setCell b (nat r) (nat c) (x\<lparr>isRevealed := True\<rparr>)"
    have here: "cellAt ?b (nat r) (nat c) = Some (x\<lparr>isRevealed := True\<rparr>)"
      by (simp add: cellAt_setCell [OF at])
    have run: "floodLoop rows cols ?b {(nat r, nat c)}
                 (if adjacentMines x = 0 \<and> \<not> isMine x then neighbours r c @ [] else []) = Inr b'"
      using assms unfolding floodReveal_def by (simp only: floodLoop_visit [OF False at nf])
    from floodLoop_keeps_revealed [OF run here]
    obtain z where z: "cellAt b' (nat r) (nat c) = Some z" "isRevealed z"
      by auto
    then have "isRevealed z \<or> isFlagged z" by simp
    from floodLoop_seen [OF False z(1) this, of "[]"] show ?thesis
      by (simp add: floodReveal_def del: floodLoop.simps(2))
  qed
qed

text \<open>A 3 x 3 board with one mine in the corner \<open>(2, 2)\<close>, nothing revealed.\<close>

definition cornerMineBoard :: board where
  "cornerMineBoard =
     [[hiddenCell\<lparr>adjacentMines := 0\<rparr>, hiddenCell\<lparr>adjacentMines := 0\<rparr>,
       hiddenCell\<lparr>adjacentMines := 0\<rparr>],
      [hiddenCell\<lparr>adjacentMines := 0\<rparr>, hiddenCell, hiddenCell],
      [hiddenCell\<lparr>adjacentMines := 0\<rparr>, hiddenCell, mineCell]]"

definition cornerMineRevealed :: board where
  "cornerMineRevealed =
     [[openCell, openCell, openCell],
      [openCell, openCell\<lparr>adjacentMines := 1\<rparr>, openCell\<lparr>adjacentMines := 1\<rparr>],
      [openCell, openCell\<lparr>adjacentMines := 1\<rparr>, mineCell]]"

text \<open>
  C5.  On a board of \<open>rows\<close> rows of \<open>cols\<close> cells \<open>floodReveal\<close> returns a board (it
  neither throws nor runs forever), and revealing again from the same origin returns that
  board unchanged.  This holds for every origin, inside the grid or not.
\<close>

theorem floodReveal_idempotent:
  assumes "wfBoard rows cols b"
  shows "\<exists>b'. floodReveal b r c rows cols = Inr b' \<and> wfBoard rows cols b'
             \<and> floodReveal b' r c rows cols = Inr b'"
proof -
  from floodLoop_wf [OF assms] obtain b'
    where "floodReveal b r c rows cols = Inr b'" "wfBoard rows cols b'"
    unfolding floodReveal_def by blast
  then show ?thesis
    using floodReveal_again by blast
qed

theorem floodReveal_idempotent_witness:
  "wfBoard 3 3 cornerMineBoard
   \<and> floodReveal cornerMineBoard 0 0 3 3 = Inr cornerMineRevealed
   \<and> floodReveal cornerMineRevealed 0 0 3 3 = Inr cornerMineRevealed"
proof -
  have wf: "wfBoard 3 3 cornerMineBoard"
    by code_simp
  have run: "floodReveal cornerMineBoard 0 0 3 3 = Inr cornerMineRevealed"
    by code_simp
  from floodReveal_idempotent [OF wf, of 0 0] wf run show ?thesis
    by simp
qed


section \<open>generateBoardWithSeed\<close>

text \<open>
  \<open>Math.sin\<close> is a floating-point function of the platform: the development takes it
  as the parameter \<open>sinF\<close> (its value at the integer \<open>seed + randomCounter\<close>) and computes
  \<open>random(min, max)\<close> from it in the reals.  The counter of the closure is passed along.
  The constant is called \<open>random_draw\<close> since \<open>random\<close> is taken.
\<close>

definition cellAtI :: "board \<Rightarrow> int \<Rightarrow> int \<Rightarrow> cell option" where
  "cellAtI b r c = (if 0 \<le> r \<and> 0 \<le> c then cellAt b (nat r) (nat c) else None)"

definition random_draw :: "(int \<Rightarrow> real) \<Rightarrow> int \<Rightarrow> nat \<Rightarrow> int \<Rightarrow> int \<Rightarrow> int" where
  "random_draw sinF seed randomCounter lo hi =
     (let x = sinF (seed + int randomCounter) * 10000
      in \<lfloor>(x - of_int \<lfloor>x\<rfloor>) * of_int (hi - lo + 1)\<rfloor> + lo)"

text \<open>
  The set \<open>safeZone\<close> of keys \<open>"r,c"\<close>, as a set of pairs: the safe cell itself, in the
  grid or not, and its neighbours inside the grid.
\<close>

definition safeZoneOf :: "nat \<Rightarrow> nat \<Rightarrow> int \<Rightarrow> int \<Rightarrow> (int \<times> int) set" where
  "safeZoneOf rows cols safeR safeC =
     insert (safeR, safeC)
       (set (concat (map (\<lambda>dr. concat (map (\<lambda>dc.
          (let nr = safeR + dr; nc = safeC + dc
           in if dr = 0 \<and> dc = 0 then []
              else if nr \<ge> 0 \<and> nr < int rows \<and> nc \<ge> 0 \<and> nc < int cols then [(nr, nc)]
              else [])) [-1, 0, 1])) [-1, 0, 1])))"

definition emptyBoard :: "nat \<Rightarrow> nat \<Rightarrow> board" where
  "emptyBoard rows cols =
     replicate rows (replicate cols
       \<lparr>isMine = False, isRevealed = False, isFlagged = False, adjacentMines = 0\<rparr>)"

text \<open>
  The \<open>while\<close> loop that places the mines.  It has no bound: \<open>None\<close> is the loop that
  never ends, \<open>Some (Inl TypeError)\<close> a draw outside the board, \<open>Some (Inr board)\<close> the board
  with the mines placed.
\<close>

partial_function (option) placeMines ::
  "(int \<Rightarrow> real) \<Rightarrow> int \<Rightarrow> nat \<Rightarrow> nat \<Rightarrow> nat \<Rightarrow> (int \<times> int) set \<Rightarrow> board \<Rightarrow> nat \<Rightarrow> nat
     \<Rightarrow> (error + board) option" where
  "placeMines sinF seed rows cols mines safeZone board randomCounter minesPlaced =
     (if minesPlaced < mines then
        (let r = random_draw sinF seed randomCounter 0 (int rows - 1);
             c = random_draw sinF seed (randomCounter + 1) 0 (int cols - 1)
         in case cellAtI board r c of
              None \<Rightarrow> Some (Inl TypeError)
            | Some x \<Rightarrow>
                if \<not> isMine x \<and> (r, c) \<notin> safeZone
                then placeMines sinF seed rows cols mines safeZone
                       (setCell board (nat r) (nat c) (x\<lparr>isMine := True\<rparr>))
                       (randomCounter + 2) (Suc minesPlaced)
                else placeMines sinF seed rows cols mines safeZone board
                       (randomCounter + 2) minesPlaced)
      else Some (Inr board))"

declare placeMines.simps [code]

text \<open>
  The pass that counts the mines around every cell without a mine.  It reads \<open>isMine\<close>
  only inside the grid, on a board of \<open>rows\<close> rows of \<open>cols\<close> cells.
\<close>

definition countAdjacent :: "board \<Rightarrow> nat \<Rightarrow> nat \<Rightarrow> nat \<Rightarrow> nat \<Rightarrow> nat" where
  "countAdjacent board rows cols r c =
     length (filter (\<lambda>(dr, dc).
         int r + dr \<ge> 0 \<and> int r + dr < int rows \<and> int c + dc \<ge> 0 \<and> int c + dc < int cols
         \<and> isMine (board ! nat (int r + dr) ! nat (int c + dc)))
       (concat (map (\<lambda>dr. map (\<lambda>dc. (dr, dc)) [-1, 0, 1]) [-1, 0, 1])))"

definition adjacentPass :: "nat \<Rightarrow> nat \<Rightarrow> board \<Rightarrow> board" where
  "adjacentPass rows cols board =
     fold (\<lambda>r b. fold (\<lambda>c b.
            if isMine (b ! r ! c) then b
            else setCell b r c ((b ! r ! c)\<lparr>adjacentMines := countAdjacent b rows cols r c\<rparr>))
          [0..<cols] b)
       [0..<rows] board"

definition generateBoardWithSeed ::
  "(int \<Rightarrow> real) \<Rightarrow> int \<Rightarrow> nat \<Rightarrow> nat \<Rightarrow> nat \<Rightarrow> int \<Rightarrow> int \<Rightarrow> (error + board) option" where
  "generateBoardWithSeed sinF seed rows cols mines safeR safeC =
     (case placeMines sinF seed rows cols mines (safeZoneOf rows cols safeR safeC)
             (emptyBoard rows cols) 0 0 of
        None \<Rightarrow> None
      | Some (Inl e) \<Rightarrow> Some (Inl e)
      | Some (Inr board) \<Rightarrow> Some (Inr (adjacentPass rows cols board)))"


section \<open>Rooms, players and the registry\<close>

text \<open>
  The states are the values of the client's type \<open>GameState\<close>; the server compares
  \<open>gameState\<close> with \<open>'post_game'\<close> but assigns only \<open>'waiting'\<close>, \<open>'ready'\<close>, \<open>'playing'\<close>
  and \<open>'finished'\<close>.  A player object has no \<open>wantsToPlayAgain\<close> until \<open>playAgain\<close> sets
  it; the missing field is falsy and modelled as \<open>False\<close>.
\<close>

datatype gameState = Waiting | Ready | Countdown | Playing | Finished | PostGame

record player =
  playerId :: string
  playerName :: string
  ready :: bool
  isAdmin :: bool
  wantsToPlayAgain :: bool

record room =
  roomId :: string
  difficulty :: string
  players :: "player list"
  gameState :: gameState
  seed :: int
  gameStartTime :: "nat option"
  winner :: "string option"

text \<open>
  What the closure given to \<open>setInterval\<close> in \<open>startGame\<close> holds.  Its \<open>room\<close> and
  \<open>playerBoardMap\<close> are looked up in the registry by the room id: they are the registry's
  objects as long as the id has not been given to another room.
\<close>

record countdownTimer =
  timerRoomId :: string
  countdown :: int
  revealedBoard :: board
  firstClick :: "int \<times> int"
  timerRows :: nat
  timerCols :: nat
  timerMines :: nat

text \<open>
  \<open>rooms\<close> is a \<open>Map\<close>, iterated in insertion order by \<open>disconnect\<close>: an association
  list.  \<open>playerBoards\<close> is never iterated.
\<close>

record server =
  rooms :: "(string \<times> room) list"
  playerBoards :: "string \<rightharpoonup> (string \<rightharpoonup> board)"
  timers :: "countdownTimer list"

text \<open>
  What a handler emits, and to whom: the sender's socket, every socket of a room, or
  every socket of a room but the sender's.
\<close>

datatype target = ToSocket string | ToRoom string | ToOthers string string

datatype event =
    RoomCreated string room
  | ErrorEvent string
  | RoomJoined room
  | PlayerJoined player
  | PlayerReady string
  | GameReady
  | GameWaiting
  | CountdownStarted int "int \<times> int"
  | CountdownUpdate int
  | GameStarted nat board "int \<times> int"
  | ProgressUpdate "(string \<times> jsNumber) list"
  | GameOver string "string option" string "string option" "string option"
  | GameWon string string string
  | BoardUpdate board int int string "bool option" jsNumber
  | PlayAgainStatus string bool bool
  | GameReset room
  | PlayerLeft string
  | MovedToNewRoom string room
  | ReturnedToLobby

type_synonym emitted = "(target \<times> event) list"

definition initialServer :: server where
  "initialServer = \<lparr>rooms = [], playerBoards = Map.empty, timers = []\<rparr>"

text \<open>
  \<open>generateRoomId\<close>: \<open>u i mod 36\<close> stands for the \<open>i\<close>-th
  \<open>Math.floor(Math.random() * chars.length)\<close>.
\<close>

definition chars :: string where
  "chars = ''abcdefghijklmnopqrstuvwxyz0123456789''"

definition generateRoomId :: "(nat \<Rightarrow> nat) \<Rightarrow> string" where
  "generateRoomId u = map (\<lambda>i. chars ! (u i mod length chars)) [0..<4]"

text \<open>
  \<open>settings[difficulty]\<close> reads an object literal: its own keys \<open>easy\<close>, \<open>medium\<close>,
  \<open>hard\<close>, and then the members of \<open>Object.prototype\<close>, which every object literal
  inherits and which are all truthy.  Destructuring \<open>rows\<close>, \<open>cols\<close>, \<open>mines\<close> from such
  a member gives \<open>undefined\<close> three times.
\<close>

datatype settingsValue = Settings nat nat nat | Inherited string

definition objectPrototypeKeys :: "string list" where
  "objectPrototypeKeys =
     [''constructor'', ''hasOwnProperty'', ''isPrototypeOf'', ''propertyIsEnumerable'',
      ''toLocaleString'', ''toString'', ''valueOf'', ''__proto__'',
      ''__defineGetter__'', ''__defineSetter__'', ''__lookupGetter__'', ''__lookupSetter__'']"

definition settings :: "string \<Rightarrow> settingsValue option" where
  "settings key =
     (if key = ''easy'' then Some (Settings 8 8 10)
      else if key = ''medium'' then Some (Settings 16 16 40)
      else if key = ''hard'' then Some (Settings 20 20 100)
      else if key \<in> set objectPrototypeKeys then Some (Inherited key)
      else None)"

definition getDifficultySettings :: "string \<Rightarrow> settingsValue" where
  "getDifficultySettings d =
     (case settings d of Some v \<Rightarrow> v | None \<Rightarrow> Settings 16 16 40)"

text \<open>\<open>p?.name || 'Unknown'\<close>: the empty name is falsy too.\<close>

definition nameOrUnknown :: "player option \<Rightarrow> string" where
  "nameOrUnknown p =
     (case p of None \<Rightarrow> ''Unknown''
      | Some q \<Rightarrow> if playerName q = [] then ''Unknown'' else playerName q)"

fun updateFirst :: "('a \<Rightarrow> bool) \<Rightarrow> ('a \<Rightarrow> 'a) \<Rightarrow> 'a list \<Rightarrow> 'a list" where
  "updateFirst P f [] = []"
| "updateFirst P f (x # xs) = (if P x then f x # xs else x # updateFirst P f xs)"

fun removeFirst :: "('a \<Rightarrow> bool) \<Rightarrow> 'a list \<Rightarrow> 'a list" where
  "removeFirst P [] = []"
| "removeFirst P (x # xs) = (if P x then xs else x # removeFirst P xs)"

definition newPlayer :: "string \<Rightarrow> string \<Rightarrow> bool \<Rightarrow> player" where
  "newPlayer sid name admin =
     \<lparr>playerId = sid, playerName = name, ready = False, isAdmin = admin,
      wantsToPlayAgain = False\<rparr>"

definition newRoomFor :: "string \<Rightarrow> string \<Rightarrow> string \<Rightarrow> string \<Rightarrow> int \<Rightarrow> room" where
  "newRoomFor rid diff sid name newSeed =
     \<lparr>roomId = rid, difficulty = diff, players = [newPlayer sid name True],
      gameState = Waiting, seed = newSeed, gameStartTime = None, winner = None\<rparr>"

section \<open>The handlers\<close>

text \<open>
  Every handler takes the sender's socket id \<open>sid\<close> and the registry, and returns the
  registry and what it emits.  \<open>newSeed\<close> stands for
  \<open>Math.floor(Math.random() * 1000000)\<close>, \<open>now\<close> for \<open>Date.now()\<close>.  A handler that throws
  returns \<open>Inl TypeError\<close>.
\<close>

definition createRoom ::
  "string \<Rightarrow> (nat \<Rightarrow> nat) \<Rightarrow> int \<Rightarrow> string \<Rightarrow> string \<Rightarrow> server \<Rightarrow> server \<times> emitted" where
  "createRoom sid u newSeed diff name s =
     (let rid = generateRoomId u;
          room = newRoomFor rid diff sid name newSeed
      in (s\<lparr>rooms := AList.update rid room (rooms s),
            playerBoards := (playerBoards s)(rid \<mapsto> Map.empty)\<rparr>,
          [(ToSocket sid, RoomCreated rid room)]))"

definition joinRoom :: "string \<Rightarrow> string \<Rightarrow> string \<Rightarrow> server \<Rightarrow> server \<times> emitted" where
  "joinRoom sid rid name s =
     (case map_of (rooms s) rid of
        None \<Rightarrow> (s, [(ToSocket sid, ErrorEvent ''Room not found'')])
      | Some room \<Rightarrow>
          if length (players room) \<ge> 2 then (s, [(ToSocket sid, ErrorEvent ''Room is full'')])
          else
            (let room' = room\<lparr>players := players room @ [newPlayer sid name False]\<rparr>
             in (s\<lparr>rooms := AList.update rid room' (rooms s)\<rparr>,
                 [(ToSocket sid, RoomJoined room'),
                  (ToOthers rid sid, PlayerJoined (newPlayer sid name False))])))"

definition playerReady :: "string \<Rightarrow> string \<Rightarrow> server \<Rightarrow> server \<times> emitted" where
  "playerReady sid rid s =
     (case map_of (rooms s) rid of
        None \<Rightarrow> (s, [])
      | Some room \<Rightarrow>
          (case find (\<lambda>p. playerId p = sid) (players room) of
             None \<Rightarrow> (s, [])
           | Some player \<Rightarrow>
               (let room1 = room\<lparr>players :=
                      updateFirst (\<lambda>p. playerId p = sid) (\<lambda>p. p\<lparr>ready := \<not> ready p\<rparr>)
                        (players room)\<rparr>
                in if length (players room1) \<ge> 2 \<and> list_all ready (players room1) then
                     (s\<lparr>rooms := AList.update rid (room1\<lparr>gameState := Ready\<rparr>) (rooms s)\<rparr>,
                      [(ToOthers rid sid, PlayerReady sid), (ToRoom rid, GameReady)])
                   else if gameState room1 = Ready then
                     (s\<lparr>rooms := AList.update rid (room1\<lparr>gameState := Waiting\<rparr>) (rooms s)\<rparr>,
                      [(ToOthers rid sid, PlayerReady sid), (ToRoom rid, GameWaiting)])
                   else
                     (s\<lparr>rooms := AList.update rid room1 (rooms s)\<rparr>,
                      [(ToOthers rid sid, PlayerReady sid)]))))"

type_synonym outcome = "error + server \<times> emitted"

fun progressOf ::
  "player list \<Rightarrow> (string \<rightharpoonup> board) \<Rightarrow> nat \<Rightarrow> nat \<Rightarrow> nat \<Rightarrow> (string \<times> jsNumber) list
     \<Rightarrow> error + (string \<times> jsNumber) list" where
  "progressOf [] playerBoardMap rows cols mines acc = Inr acc"
| "progressOf (p # ps) playerBoardMap rows cols mines acc =
     (case playerBoardMap (playerId p) of
        None \<Rightarrow> progressOf ps playerBoardMap rows cols mines acc
      | Some pb \<Rightarrow>
          (case getPlayerProgress pb rows cols mines of
             Inl e \<Rightarrow> Inl e
           | Inr v \<Rightarrow>
               progressOf ps playerBoardMap rows cols mines (AList.update (playerId p) v acc)))"

text \<open>
  \<open>startGame\<close> after its guards, for a room whose difficulty has the settings
  \<open>rows\<close>, \<open>cols\<close>, \<open>mines\<close>.  \<open>None\<close> is a mine placement that never ends.
\<close>

definition beginGame ::
  "(int \<Rightarrow> real) \<Rightarrow> string \<Rightarrow> nat \<Rightarrow> room \<Rightarrow> nat \<Rightarrow> nat \<Rightarrow> nat \<Rightarrow> server \<Rightarrow> outcome option" where
  "beginGame sinF rid now room rows cols mines s =
     (let firstClickRow = random_draw sinF (seed room) 0 0 (int rows - 1);
          firstClickCol = random_draw sinF (seed room) 1 0 (int cols - 1)
      in case generateBoardWithSeed sinF (seed room) rows cols mines
                firstClickRow firstClickCol of
           None \<Rightarrow> None
         | Some (Inl e) \<Rightarrow> Some (Inl e)
         | Some (Inr roomBoard) \<Rightarrow>
             (case playerBoards s rid of
                None \<Rightarrow> Some (Inl TypeError)
              | Some playerBoardMap \<Rightarrow>
                  (let pbm1 = fold (\<lambda>p m. m(playerId p \<mapsto> roomBoard))
                                (players room) playerBoardMap;
                       room' = room\<lparr>gameState := Playing, gameStartTime := Some now\<rparr>
                   in case floodReveal roomBoard firstClickRow firstClickCol rows cols of
                        Inl e \<Rightarrow> Some (Inl e)
                      | Inr revealed \<Rightarrow>
                          Some (Inr
                            (s\<lparr>rooms := AList.update rid room' (rooms s),
                                playerBoards := (playerBoards s)(rid \<mapsto>
                                  fold (\<lambda>p m. m(playerId p \<mapsto> revealed))
                                    (players room) pbm1),
                                timers := timers s @
                                  [\<lparr>timerRoomId = rid, countdown = 5,
                                    revealedBoard = revealed,
                                    firstClick = (firstClickRow, firstClickCol),
                                    timerRows = rows, timerCols = cols,
                                    timerMines = mines\<rparr>]\<rparr>,
                             [(ToRoom rid, CountdownStarted 5
                                 (firstClickRow, firstClickCol))])))))"

text \<open>
  With an inherited member for settings, \<open>rows\<close>, \<open>cols\<close> and \<open>mines\<close> are \<open>undefined\<close>:
  the first click is \<open>(NaN, NaN)\<close>, the board is \<open>[]\<close>, and \<open>floodReveal\<close> throws on
  \<open>visited[NaN][NaN]\<close>.
\<close>

definition startGame ::
  "(int \<Rightarrow> real) \<Rightarrow> string \<Rightarrow> string \<Rightarrow> nat \<Rightarrow> server \<Rightarrow> outcome option" where
  "startGame sinF sid rid now s =
     (case map_of (rooms s) rid of
        None \<Rightarrow> Some (Inr (s, []))
      | Some room \<Rightarrow>
          if length (players room) < 2 then Some (Inr (s, []))
          else
            (case find (\<lambda>p. playerId p = sid) (players room) of
               None \<Rightarrow>
                 Some (Inr (s, [(ToSocket sid,
                   ErrorEvent ''Only the room admin can start the game'')]))
             | Some player \<Rightarrow>
                 if \<not> isAdmin player then
                   Some (Inr (s, [(ToSocket sid,
                     ErrorEvent ''Only the room admin can start the game'')]))
                 else
                   (case getDifficultySettings (difficulty room) of
                      Inherited k \<Rightarrow> Some (Inl TypeError)
                    | Settings rows cols mines \<Rightarrow>
                        beginGame sinF rid now room rows cols mines s)))"

text \<open>One call of the interval's callback for the \<open>i\<close>-th pending timer.\<close>

definition countdownTick :: "nat \<Rightarrow> nat \<Rightarrow> server \<Rightarrow> outcome" where
  "countdownTick i now s =
     (if i < length (timers s) then
        (let t = timers s ! i;
             t' = t\<lparr>countdown := countdown t - 1\<rparr>
         in if countdown t' \<le> 0 then
              (case progressOf
                      (case map_of (rooms s) (timerRoomId t) of
                         None \<Rightarrow> [] | Some room \<Rightarrow> players room)
                      (case playerBoards s (timerRoomId t) of
                         None \<Rightarrow> Map.empty | Some m \<Rightarrow> m)
                      (timerRows t) (timerCols t) (timerMines t) [] of
                 Inl e \<Rightarrow> Inl e
               | Inr initialProgress \<Rightarrow>
                   Inr (s\<lparr>timers := take i (timers s) @ drop (Suc i) (timers s)\<rparr>,
                        [(ToRoom (timerRoomId t), CountdownUpdate (countdown t')),
                         (ToRoom (timerRoomId t),
                            GameStarted now (revealedBoard t) (firstClick t)),
                         (ToRoom (timerRoomId t), ProgressUpdate initialProgress)]))
            else
              Inr (s\<lparr>timers := (timers s)[i := t']\<rparr>,
                   [(ToRoom (timerRoomId t), CountdownUpdate (countdown t'))]))
      else Inr (s, []))"

definition revealMines :: "board \<Rightarrow> board" where
  "revealMines playerBoard =
     map (\<lambda>boardRow. map (\<lambda>c. if isMine c then c\<lparr>isRevealed := True\<rparr> else c) boardRow)
       playerBoard"

text \<open>The guards that \<open>cellClick\<close> and \<open>cellFlag\<close> both start with.\<close>

definition playingBoard ::
  "string \<Rightarrow> string \<Rightarrow> server \<Rightarrow> (room \<times> (string \<rightharpoonup> board) \<times> board) option" where
  "playingBoard sid rid s =
     (case map_of (rooms s) rid of
        None \<Rightarrow> None
      | Some room \<Rightarrow>
          if gameState room \<noteq> Playing then None
          else
            (case playerBoards s rid of
               None \<Rightarrow> None
             | Some playerBoardMap \<Rightarrow>
                 (case playerBoardMap sid of
                    None \<Rightarrow> None
                  | Some playerBoard \<Rightarrow> Some (room, playerBoardMap, playerBoard))))"

text \<open>The branch of \<open>cellClick\<close> for a mine.\<close>

definition mineHit ::
  "string \<Rightarrow> string \<Rightarrow> room \<Rightarrow> (string \<rightharpoonup> board) \<Rightarrow> board \<Rightarrow> server \<Rightarrow> server \<times> emitted" where
  "mineHit sid rid room playerBoardMap playerBoard s =
     (let otherPlayer = find (\<lambda>p. playerId p \<noteq> sid) (players room);
          currentPlayer = find (\<lambda>p. playerId p = sid) (players room);
          room' = room\<lparr>gameState := Finished, winner := Some (nameOrUnknown otherPlayer)\<rparr>
      in (s\<lparr>rooms := AList.update rid room' (rooms s),
            playerBoards := (playerBoards s)(rid \<mapsto>
              playerBoardMap(sid \<mapsto> revealMines playerBoard))\<rparr>,
          [(ToRoom rid,
            GameOver (nameOrUnknown otherPlayer) (Some (nameOrUnknown currentPlayer))
              (nameOrUnknown currentPlayer @ '' hit a mine!'')
              (map_option playerId otherPlayer) (Some sid))]))"

text \<open>The branch of \<open>cellClick\<close> for a cell without a mine, with the difficulty's settings.\<close>

definition safeHit ::
  "string \<Rightarrow> string \<Rightarrow> int \<Rightarrow> int \<Rightarrow> room \<Rightarrow> (string \<rightharpoonup> board) \<Rightarrow> board
     \<Rightarrow> nat \<Rightarrow> nat \<Rightarrow> nat \<Rightarrow> server \<Rightarrow> outcome" where
  "safeHit sid rid row col room playerBoardMap playerBoard rows cols mines s =
     (case floodReveal playerBoard row col rows cols of
        Inl e \<Rightarrow> Inl e
      | Inr revealed \<Rightarrow>
          (case checkWin revealed rows cols of
             Inl e \<Rightarrow> Inl e
           | Inr won \<Rightarrow>
               if won then
                 (let currentPlayer = find (\<lambda>p. playerId p = sid) (players room);
                      room' = room\<lparr>gameState := Finished,
                                    winner := Some (nameOrUnknown currentPlayer)\<rparr>
                  in Inr
                    (s\<lparr>rooms := AList.update rid room' (rooms s),
                        playerBoards := (playerBoards s)(rid \<mapsto>
                          playerBoardMap(sid \<mapsto> revealed))\<rparr>,
                     [(ToRoom rid,
                       GameWon (nameOrUnknown currentPlayer) sid
                         (nameOrUnknown currentPlayer @ '' completed the board first!''))]))
               else
                 (case getPlayerProgress revealed rows cols mines of
                    Inl e \<Rightarrow> Inl e
                  | Inr progress \<Rightarrow>
                      (case progressOf (players room) (playerBoardMap(sid \<mapsto> revealed))
                              rows cols mines [] of
                         Inl e \<Rightarrow> Inl e
                       | Inr allProgress \<Rightarrow>
                           Inr
                            (s\<lparr>playerBoards := (playerBoards s)(rid \<mapsto>
                                playerBoardMap(sid \<mapsto> revealed))\<rparr>,
                             [(ToSocket sid, BoardUpdate revealed row col sid None progress),
                              (ToRoom rid, ProgressUpdate allProgress)]
                             @ (if allProgress \<noteq> [] then
                                  [(ToRoom rid, ProgressUpdate allProgress)]
                                else []))))))"

definition cellClick :: "string \<Rightarrow> string \<Rightarrow> int \<Rightarrow> int \<Rightarrow> server \<Rightarrow> outcome" where
  "cellClick sid rid row col s =
     (case playingBoard sid rid s of
        None \<Rightarrow> Inr (s, [])
      | Some (room, playerBoardMap, playerBoard) \<Rightarrow>
          (case cellAtI playerBoard row col of
             None \<Rightarrow> Inl TypeError
           | Some cell \<Rightarrow>
               if isFlagged cell then Inr (s, [])
               else if isMine cell then Inr (mineHit sid rid room playerBoardMap playerBoard s)
               else
                 (case getDifficultySettings (difficulty room) of
                    Inherited k \<Rightarrow> Inl TypeError
                  | Settings rows cols mines \<Rightarrow>
                      safeHit sid rid row col room playerBoardMap playerBoard
                        rows cols mines s)))"

definition cellFlag :: "string \<Rightarrow> string \<Rightarrow> int \<Rightarrow> int \<Rightarrow> server \<Rightarrow> outcome" where
  "cellFlag sid rid row col s =
     (case playingBoard sid rid s of
        None \<Rightarrow> Inr (s, [])
      | Some (room, playerBoardMap, playerBoard) \<Rightarrow>
          (case cellAtI playerBoard row col of
             None \<Rightarrow> Inl TypeError
           | Some cell \<Rightarrow>
               if isRevealed cell then Inr (s, [])
               else
                 (let flagged = setCell playerBoard (nat row) (nat col)
                                  (cell\<lparr>isFlagged := \<not> isFlagged cell\<rparr>)
                  in case (case getDifficultySettings (difficulty room) of
                             Inherited k \<Rightarrow> Inr NaN
                           | Settings rows cols mines \<Rightarrow>
                               getPlayerProgress flagged rows cols mines) of
                       Inl e \<Rightarrow> Inl e
                     | Inr progress \<Rightarrow>
                         Inr
                          (s\<lparr>playerBoards := (playerBoards s)(rid \<mapsto>
                              playerBoardMap(sid \<mapsto> flagged))\<rparr>,
                           [(ToSocket sid,
                             BoardUpdate flagged row col sid
                               (Some (\<not> isFlagged cell)) progress)]))))"

definition playAgain :: "string \<Rightarrow> string \<Rightarrow> int \<Rightarrow> server \<Rightarrow> server \<times> emitted" where
  "playAgain sid rid newSeed s =
     (case map_of (rooms s) rid of
        None \<Rightarrow> (s, [])
      | Some room \<Rightarrow>
          (case find (\<lambda>p. playerId p = sid) (players room) of
             None \<Rightarrow> (s, [])
           | Some currentPlayer \<Rightarrow>
               (let ps1 = updateFirst (\<lambda>p. playerId p = sid)
                            (\<lambda>p. p\<lparr>wantsToPlayAgain := True\<rparr>) (players room);
                    allWantToPlayAgain = list_all wantsToPlayAgain ps1;
                    status = (ToRoom rid, PlayAgainStatus sid True allWantToPlayAgain)
                in if allWantToPlayAgain then
                     (let room' = room\<lparr>players :=
                                     map (\<lambda>p. p\<lparr>ready := False, wantsToPlayAgain := False\<rparr>) ps1,
                                   gameState := Waiting, winner := None, gameStartTime := None,
                                   seed := newSeed\<rparr>
                      in (s\<lparr>rooms := AList.update rid room' (rooms s),
                            playerBoards :=
                              (case playerBoards s rid of
                                 None \<Rightarrow> playerBoards s
                               | Some m \<Rightarrow> (playerBoards s)(rid \<mapsto> Map.empty))\<rparr>,
                          [status, (ToRoom rid, GameReset room')]))
                   else
                     (s\<lparr>rooms := AList.update rid (room\<lparr>players := ps1\<rparr>) (rooms s)\<rparr>,
                      [status]))))"

text \<open>Removing a player from a room object that is still the registry's entry for \<open>rid\<close>.\<close>

definition leaveRoom :: "string \<Rightarrow> string \<Rightarrow> room \<Rightarrow> server \<Rightarrow> server" where
  "leaveRoom sid rid room s =
     (let room' = room\<lparr>players := removeFirst (\<lambda>p. playerId p = sid) (players room)\<rparr>;
          boards = (case playerBoards s rid of
                      None \<Rightarrow> playerBoards s
                    | Some m \<Rightarrow> (playerBoards s)(rid \<mapsto> m(sid := None)))
      in if players room' = [] then
           s\<lparr>rooms := AList.delete rid (rooms s), playerBoards := boards(rid := None)\<rparr>
         else s\<lparr>rooms := AList.update rid room' (rooms s), playerBoards := boards\<rparr>)"

definition returnToLobby ::
  "string \<Rightarrow> string \<Rightarrow> (nat \<Rightarrow> nat) \<Rightarrow> int \<Rightarrow> server \<Rightarrow> server \<times> emitted" where
  "returnToLobby sid rid u newSeed s =
     (case map_of (rooms s) rid of
        None \<Rightarrow> (s, [])
      | Some room \<Rightarrow>
          (case find (\<lambda>p. playerId p = sid) (players room) of
             None \<Rightarrow> (s, [])
           | Some currentPlayer \<Rightarrow>
               if wantsToPlayAgain currentPlayer \<and> gameState room = PostGame then
                 (let newRoomId = generateRoomId u;
                      newRoom = newRoomFor newRoomId (difficulty room) sid
                                  (playerName currentPlayer) newSeed;
                      s1 = s\<lparr>rooms := AList.update newRoomId newRoom (rooms s),
                             playerBoards := (playerBoards s)(newRoomId \<mapsto> Map.empty)\<rparr>;
                      s2 = (if newRoomId = rid then
                              (if removeFirst (\<lambda>p. playerId p = sid) (players room) = [] then
                                 s1\<lparr>rooms := AList.delete rid (rooms s1),
                                     playerBoards := (playerBoards s1)(rid := None)\<rparr>
                               else s1)
                            else leaveRoom sid rid room s1)
                  in (s2, [(ToOthers rid sid, PlayerLeft sid),
                           (ToSocket sid, MovedToNewRoom newRoomId newRoom)]))
               else
                 (leaveRoom sid rid room s,
                  [(ToOthers rid sid, PlayerLeft sid), (ToSocket sid, ReturnedToLobby)])))"

definition disconnect ::
  "string \<Rightarrow> (nat \<Rightarrow> nat) \<Rightarrow> int \<Rightarrow> server \<Rightarrow> server \<times> emitted" where
  "disconnect sid u newSeed s =
     (case find (\<lambda>(rid, room). find (\<lambda>p. playerId p = sid) (players room) \<noteq> None) (rooms s) of
        None \<Rightarrow> (s, [])
      | Some (rid, room) \<Rightarrow>
          (let remaining = removeFirst (\<lambda>p. playerId p = sid) (players room);
               room' = room\<lparr>players := remaining\<rparr>;
               s1 = leaveRoom sid rid room s;
               left = (ToOthers rid sid, PlayerLeft sid)
           in if remaining = [] then (s1, [left])
              else if gameState room = Playing then
                (s1\<lparr>rooms := AList.update rid
                      (room'\<lparr>gameState := Finished,
                             winner := Some (nameOrUnknown (Some (hd remaining)))\<rparr>) (rooms s1)\<rparr>,
                 [left, (ToRoom rid,
                    GameOver (nameOrUnknown (Some (hd remaining))) None ''Player disconnected''
                      None None)])
              else if gameState room = PostGame \<and> wantsToPlayAgain (hd remaining) then
                (let newRoomId = generateRoomId u;
                     newRoom = newRoomFor newRoomId (difficulty room) (playerId (hd remaining))
                                 (playerName (hd remaining)) newSeed
                 in (s1\<lparr>rooms := AList.update newRoomId newRoom (rooms s1),
                        playerBoards := (playerBoards s1)(newRoomId \<mapsto> Map.empty)\<rparr>,
                     [left, (ToSocket (playerId (hd remaining)),
                              MovedToNewRoom newRoomId newRoom)]))
              else (s1, [left])))"


section \<open>Properties of board generation\<close>

text \<open>
  \<open>mineAt\<close> says whether the board has a mine at a pair of coordinates, \<open>mineLayout\<close> is
  the board reduced to its mines.  \<open>placeInv\<close> is what the placing loop keeps true.
  \<open>drawCell\<close> is the cell drawn by the \<open>k\<close>-th round of the loop, and \<open>enoughDraws\<close> says
  that the first \<open>n\<close> rounds draw at least \<open>mines\<close> different cells outside the safe zone.
\<close>

definition mineAt :: "board \<Rightarrow> int \<times> int \<Rightarrow> bool" where
  "mineAt b p = (case cellAtI b (fst p) (snd p) of None \<Rightarrow> False | Some x \<Rightarrow> isMine x)"

definition mineLayout :: "board \<Rightarrow> bool list list" where
  "mineLayout b = map (map isMine) b"

definition placeInv :: "nat \<Rightarrow> nat \<Rightarrow> nat \<Rightarrow> (int \<times> int) set \<Rightarrow> board \<Rightarrow> nat \<Rightarrow> bool" where
  "placeInv rows cols mines safeZone b minesPlaced =
     (wfBoard rows cols b \<and> countCells isMine b = minesPlaced \<and> minesPlaced \<le> mines
      \<and> (\<forall>p \<in> safeZone. \<not> mineAt b p))"


definition drawCell :: "(int \<Rightarrow> real) \<Rightarrow> int \<Rightarrow> nat \<Rightarrow> nat \<Rightarrow> nat \<Rightarrow> int \<times> int" where
  "drawCell sinF sd rows cols k =
     (random_draw sinF sd (2 * k) 0 (int rows - 1),
      random_draw sinF sd (2 * k + 1) 0 (int cols - 1))"

definition drawnCells :: "(int \<Rightarrow> real) \<Rightarrow> int \<Rightarrow> nat \<Rightarrow> nat \<Rightarrow> nat \<Rightarrow> (int \<times> int) list" where
  "drawnCells sinF sd rows cols n = map (drawCell sinF sd rows cols) [0..<n]"

definition enoughDraws ::
  "(int \<Rightarrow> real) \<Rightarrow> int \<Rightarrow> nat \<Rightarrow> nat \<Rightarrow> nat \<Rightarrow> int \<Rightarrow> int \<Rightarrow> nat \<Rightarrow> bool" where
  "enoughDraws sinF sd rows cols mines safeR safeC n =
     (mines \<le> length (remdups (filter (\<lambda>p. p \<notin> safeZoneOf rows cols safeR safeC)
                                 (drawnCells sinF sd rows cols n))))"

definition goodDrawn ::
  "(int \<Rightarrow> real) \<Rightarrow> int \<Rightarrow> nat \<Rightarrow> nat \<Rightarrow> (int \<times> int) set \<Rightarrow> nat \<Rightarrow> (int \<times> int) set" where
  "goodDrawn sinF sd rows cols safeZone n =
     set (filter (\<lambda>p. p \<notin> safeZone) (drawnCells sinF sd rows cols n))"


definition drawInv ::
  "(int \<Rightarrow> real) \<Rightarrow> int \<Rightarrow> nat \<Rightarrow> nat \<Rightarrow> (int \<times> int) set \<Rightarrow> nat \<Rightarrow> board \<Rightarrow> nat \<Rightarrow> bool" where
  "drawInv sinF sd rows cols safeZone n b minesPlaced =
     (wfBoard rows cols b \<and> (\<forall>p. mineAt b p = (p \<in> goodDrawn sinF sd rows cols safeZone n))
      \<and> minesPlaced = card (goodDrawn sinF sd rows cols safeZone n))"


text \<open>A stream for concrete runs: \<open>sinF n * 10000\<close> is \<open>(11 n mod 64) / 64\<close>.\<close>

definition demoSin :: "int \<Rightarrow> real" where
  "demoSin n = of_int (n * 11 mod 64) / 640000"


lemma random_draw_range:
  assumes "0 < n"
  shows "0 \<le> random_draw sinF sd k 0 (int n - 1) \<and> random_draw sinF sd k 0 (int n - 1) < int n"
proof -
  define x where "x = sinF (sd + int k) * 10000"
  define f where "f = x - of_int \<lfloor>x\<rfloor>"
  have f: "0 \<le> f" "f < 1"
    unfolding f_def by linarith+
  have eq: "random_draw sinF sd k 0 (int n - 1) = \<lfloor>f * real n\<rfloor>"
    by (simp add: random_draw_def Let_def x_def f_def)
  have "0 \<le> f * real n"
    using f(1) by simp
  moreover have "f * real n < real n"
    using f(2) assms by simp
  ultimately show ?thesis
    unfolding eq by (simp add: floor_less_iff)
qed

lemma filter_update_count:
  assumes "c < length row" "\<not> P (row ! c)" "P y"
  shows "length (filter P (row[c := y])) = Suc (length (filter P row))"
proof -
  have "length (filter P (take c row @ y # drop (Suc c) row))
        = Suc (length (filter P (take c row @ (row ! c) # drop (Suc c) row)))"
    using assms(2,3) by simp
  then show ?thesis
    using assms(1) by (simp add: upd_conv_take_nth_drop id_take_nth_drop [symmetric])
qed

lemma countCells_update_row:
  assumes "r < length b" "length (filter P row') = Suc (length (filter P (b ! r)))"
  shows "countCells P (b[r := row']) = Suc (countCells P b)"
proof -
  have "countCells P (take r b @ row' # drop (Suc r) b)
        = Suc (countCells P (take r b @ (b ! r) # drop (Suc r) b))"
    using assms(2) by (simp add: countCells_def)
  then show ?thesis
    using assms(1) by (simp add: upd_conv_take_nth_drop id_take_nth_drop [symmetric])
qed

lemma countCells_setCell_mine:
  assumes "cellAt b r c = Some x" "\<not> isMine x"
  shows "countCells isMine (setCell b r c (x\<lparr>isMine := True\<rparr>)) = Suc (countCells isMine b)"
proof -
  from assms(1) have r: "r < length b" and c: "c < length (b ! r)" and x: "x = b ! r ! c"
    by (auto simp: cellAt_def split: if_splits)
  have "length (filter isMine ((b ! r)[c := x\<lparr>isMine := True\<rparr>]))
        = Suc (length (filter isMine (b ! r)))"
    using c assms(2) x by (intro filter_update_count) simp_all
  with r show ?thesis
    unfolding setCell_def by (rule countCells_update_row)
qed

lemma cellAtI_SomeD: "cellAtI b r c = Some x \<Longrightarrow> 0 \<le> r \<and> 0 \<le> c \<and> cellAt b (nat r) (nat c) = Some x"
  by (auto simp: cellAtI_def split: if_splits)

lemma mineAt_setCell:
  assumes "cellAtI b r c = Some x"
  shows "mineAt (setCell b (nat r) (nat c) (x\<lparr>isMine := True\<rparr>)) p = (p = (r, c) \<or> mineAt b p)"
proof -
  from cellAtI_SomeD [OF assms] have at: "cellAt b (nat r) (nat c) = Some x" and nn: "0 \<le> r" "0 \<le> c"
    by simp_all
  obtain i j where p: "p = (i, j)" by (cases p)
  show ?thesis
    using nn assms unfolding p mineAt_def cellAtI_def
    by (auto simp: cellAt_setCell [OF at] nat_eq_iff split: option.splits if_splits)
qed

lemma placeInv_place:
  assumes "placeInv rows cols mines safeZone b k" "k < mines"
    "cellAtI b r c = Some x" "\<not> isMine x" "(r, c) \<notin> safeZone"
  shows "placeInv rows cols mines safeZone (setCell b (nat r) (nat c) (x\<lparr>isMine := True\<rparr>)) (Suc k)"
proof -
  from cellAtI_SomeD [OF assms(3)] have at: "cellAt b (nat r) (nat c) = Some x"
    by simp
  have "\<forall>p\<in>safeZone. \<not> mineAt (setCell b (nat r) (nat c) (x\<lparr>isMine := True\<rparr>)) p"
    using assms(1,5) by (auto simp: mineAt_setCell [OF assms(3)] placeInv_def)
  moreover have "wfBoard rows cols (setCell b (nat r) (nat c) (x\<lparr>isMine := True\<rparr>))"
    using assms(1) by (simp add: placeInv_def wfBoard_setCell)
  moreover have "countCells isMine (setCell b (nat r) (nat c) (x\<lparr>isMine := True\<rparr>)) = Suc k"
    using assms(1,4) by (simp add: placeInv_def countCells_setCell_mine [OF at])
  ultimately show ?thesis
    using assms(2) by (simp add: placeInv_def)
qed

lemma placeMines_partial:
  assumes run: "placeMines sinF sd rows cols mines safeZone b cnt k = Some y"
  shows "placeInv rows cols mines safeZone b k \<longrightarrow>
         (\<forall>b'. y = Inr b' \<longrightarrow> placeInv rows cols mines safeZone b' mines)"
proof (rule placeMines.raw_induct
    [where P = "\<lambda>sinF sd rows cols mines safeZone b cnt k y.
       placeInv rows cols mines safeZone b k \<longrightarrow>
       (\<forall>b'. y = Inr b' \<longrightarrow> placeInv rows cols mines safeZone b' mines)", OF _ run],
    goal_cases)
  case (1 pm sinF sd rows cols mines safeZone b cnt k y)
  note IH = "1"(1) and body = "1"(2)
  show ?case
  proof (intro impI allI)
    fix b'
    assume inv: "placeInv rows cols mines safeZone b k" and y: "y = Inr b'"
    show "placeInv rows cols mines safeZone b' mines"
    proof (cases "k < mines")
      case False
      with body y have "b' = b" by simp
      moreover from False inv have "k = mines" by (simp add: placeInv_def)
      ultimately show ?thesis using inv by simp
    next
      case True
      define r where "r = random_draw sinF sd cnt 0 (int rows - 1)"
      define c where "c = random_draw sinF sd (cnt + 1) 0 (int cols - 1)"
      have body': "(case cellAtI b r c of
              None \<Rightarrow> Some (Inl TypeError)
            | Some x \<Rightarrow>
                if \<not> isMine x \<and> (r, c) \<notin> safeZone
                then pm sinF sd rows cols mines safeZone
                       (setCell b (nat r) (nat c) (x\<lparr>isMine := True\<rparr>)) (cnt + 2) (Suc k)
                else pm sinF sd rows cols mines safeZone b (cnt + 2) k) = Some (Inr b')"
        using body True y unfolding r_def c_def Let_def by simp
      then obtain x where at: "cellAtI b r c = Some x"
        by (cases "cellAtI b r c") simp_all
      show ?thesis
      proof (cases "\<not> isMine x \<and> (r, c) \<notin> safeZone")
        case good: True
        then have "pm sinF sd rows cols mines safeZone
                (setCell b (nat r) (nat c) (x\<lparr>isMine := True\<rparr>)) (cnt + 2) (Suc k) = Some y"
          using body' at y by simp
        from IH [OF this] placeInv_place [OF inv True at] good y show ?thesis
          by blast
      next
        case False
        then have "pm sinF sd rows cols mines safeZone b (cnt + 2) k = Some y"
          using body' at y by auto
        from IH [OF this] inv y show ?thesis
          by blast
      qed
    qed
  qed
qed

lemma goodDrawn_Suc:
  "goodDrawn sinF sd rows cols safeZone (Suc n)
     = goodDrawn sinF sd rows cols safeZone n \<union> ({drawCell sinF sd rows cols n} - safeZone)"
  by (auto simp: goodDrawn_def drawnCells_def)

lemma finite_goodDrawn: "finite (goodDrawn sinF sd rows cols safeZone n)"
  by (simp add: goodDrawn_def)

lemma enoughDraws_card:
  "enoughDraws sinF sd rows cols mines safeR safeC n
     = (mines \<le> card (goodDrawn sinF sd rows cols (safeZoneOf rows cols safeR safeC) n))"
  by (simp add: enoughDraws_def goodDrawn_def length_remdups_card_conv)

lemma cellAtI_wf:
  "wfBoard rows cols b \<Longrightarrow>
   cellAtI b row col
     = (if 0 \<le> row \<and> row < int rows \<and> 0 \<le> col \<and> col < int cols
        then Some (b ! nat row ! nat col) else None)"
  by (auto simp: cellAtI_def cellAt_def wfBoard_def list_all_length)

lemma mineAt_Some: "cellAtI b r c = Some x \<Longrightarrow> mineAt b (r, c) = isMine x"
  by (simp add: mineAt_def)

lemma drawCell_at:
  assumes "0 < rows" "0 < cols" "wfBoard rows cols b"
  shows "\<exists>x. cellAtI b (fst (drawCell sinF sd rows cols n)) (snd (drawCell sinF sd rows cols n))
               = Some x"
  using random_draw_range [OF assms(1), of sinF sd "2 * n"]
    random_draw_range [OF assms(2), of sinF sd "2 * n + 1"] assms(3)
  by (simp add: drawCell_def cellAtI_wf)

lemma drawInv_place:
  assumes inv: "drawInv sinF sd rows cols safeZone n b k"
    and p: "drawCell sinF sd rows cols n = (r, c)"
    and at: "cellAtI b r c = Some x" and good: "\<not> isMine x" "(r, c) \<notin> safeZone"
  shows "drawInv sinF sd rows cols safeZone (Suc n)
           (setCell b (nat r) (nat c) (x\<lparr>isMine := True\<rparr>)) (Suc k)"
proof -
  let ?G = "goodDrawn sinF sd rows cols safeZone"
  have new: "(r, c) \<notin> ?G n"
    using inv mineAt_Some [OF at] good(1) by (auto simp: drawInv_def)
  have G: "?G (Suc n) = insert (r, c) (?G n)"
    using good(2) by (auto simp: goodDrawn_Suc p)
  have "card (?G (Suc n)) = Suc (card (?G n))"
    unfolding G using new by (simp add: finite_goodDrawn)
  moreover have "\<forall>q. mineAt (setCell b (nat r) (nat c) (x\<lparr>isMine := True\<rparr>)) q = (q \<in> ?G (Suc n))"
    using inv unfolding G by (auto simp: mineAt_setCell [OF at] drawInv_def)
  ultimately show ?thesis
    using inv by (simp add: drawInv_def wfBoard_setCell)
qed

lemma drawInv_skip:
  assumes inv: "drawInv sinF sd rows cols safeZone n b k"
    and p: "drawCell sinF sd rows cols n = (r, c)"
    and at: "cellAtI b r c = Some x" and bad: "isMine x \<or> (r, c) \<in> safeZone"
  shows "drawInv sinF sd rows cols safeZone (Suc n) b k"
proof -
  let ?G = "goodDrawn sinF sd rows cols safeZone"
  have "(r, c) \<in> ?G n \<or> (r, c) \<in> safeZone"
    using inv mineAt_Some [OF at] bad by (auto simp: drawInv_def)
  then have "?G (Suc n) = ?G n"
    by (auto simp: goodDrawn_Suc p)
  with inv show ?thesis
    by (simp add: drawInv_def)
qed

lemma placeMines_done:
  "\<not> k < mines \<Longrightarrow> placeMines sinF sd rows cols mines safeZone b cnt k = Some (Inr b)"
  by (subst placeMines.simps) simp

lemma placeMines_place:
  "k < mines \<Longrightarrow> drawCell sinF sd rows cols n = (r, c) \<Longrightarrow> cellAtI b r c = Some x \<Longrightarrow>
   \<not> isMine x \<Longrightarrow> (r, c) \<notin> safeZone \<Longrightarrow>
   placeMines sinF sd rows cols mines safeZone b (2 * n) k
     = placeMines sinF sd rows cols mines safeZone
         (setCell b (nat r) (nat c) (x\<lparr>isMine := True\<rparr>)) (2 * Suc n) (Suc k)"
  by (subst placeMines.simps) (simp add: drawCell_def Let_def)

lemma placeMines_skip:
  "k < mines \<Longrightarrow> drawCell sinF sd rows cols n = (r, c) \<Longrightarrow> cellAtI b r c = Some x \<Longrightarrow>
   isMine x \<or> (r, c) \<in> safeZone \<Longrightarrow>
   placeMines sinF sd rows cols mines safeZone b (2 * n) k
     = placeMines sinF sd rows cols mines safeZone b (2 * Suc n) k"
  by (subst placeMines.simps) (auto simp: drawCell_def Let_def)

lemma placeMines_terminates:
  assumes "0 < rows" "0 < cols"
  shows "drawInv sinF sd rows cols safeZone n b k \<Longrightarrow>
         mines \<le> card (goodDrawn sinF sd rows cols safeZone (n + d)) \<Longrightarrow>
         \<exists>b'. placeMines sinF sd rows cols mines safeZone b (2 * n) k = Some (Inr b')"
proof (induction d arbitrary: n b k)
  case 0
  then have "\<not> k < mines" by (simp add: drawInv_def)
  then show ?case by (simp add: placeMines_done)
next
  case (Suc d)
  show ?case
  proof (cases "k < mines")
    case False
    then show ?thesis by (simp add: placeMines_done)
  next
    case True
    obtain r c where p: "drawCell sinF sd rows cols n = (r, c)"
      by (cases "drawCell sinF sd rows cols n")
    from Suc.prems(1) have wf: "wfBoard rows cols b" by (simp add: drawInv_def)
    from drawCell_at [OF assms wf, of sinF sd n] p obtain x where at: "cellAtI b r c = Some x"
      by auto
    from Suc.prems(2) have enough: "mines \<le> card (goodDrawn sinF sd rows cols safeZone (Suc n + d))"
      by simp
    show ?thesis
    proof (cases "\<not> isMine x \<and> (r, c) \<notin> safeZone")
      case good: True
      from drawInv_place [OF Suc.prems(1) p at] good
      have "drawInv sinF sd rows cols safeZone (Suc n)
              (setCell b (nat r) (nat c) (x\<lparr>isMine := True\<rparr>)) (Suc k)"
        by simp
      from Suc.IH [OF this enough] show ?thesis
        using placeMines_place [OF True p at] good by simp
    next
      case False
      then have bad: "isMine x \<or> (r, c) \<in> safeZone" by simp
      from Suc.IH [OF drawInv_skip [OF Suc.prems(1) p at bad] enough] show ?thesis
        using placeMines_skip [OF True p at bad] by simp
    qed
  qed
qed

lemma placeMines_draws:
  assumes run: "placeMines sinF sd rows cols mines safeZone b cnt k = Some y"
  shows "\<forall>n. cnt = 2 * n \<and> drawInv sinF sd rows cols safeZone n b k \<longrightarrow>
           (\<forall>b'. y = Inr b' \<longrightarrow>
              (\<exists>m. mines \<le> card (goodDrawn sinF sd rows cols safeZone m)))"
proof (rule placeMines.raw_induct
    [where P = "\<lambda>sinF sd rows cols mines safeZone b cnt k y.
       \<forall>n. cnt = 2 * n \<and> drawInv sinF sd rows cols safeZone n b k \<longrightarrow>
           (\<forall>b'. y = Inr b' \<longrightarrow>
              (\<exists>m. mines \<le> card (goodDrawn sinF sd rows cols safeZone m)))", OF _ run],
    goal_cases)
  case (1 pm sinF sd rows cols mines safeZone b cnt k y)
  note IH = "1"(1) and body = "1"(2)
  show ?case
  proof (intro impI allI, elim conjE)
    fix n b'
    assume cnt: "cnt = 2 * n" and inv: "drawInv sinF sd rows cols safeZone n b k"
      and y: "y = Inr b'"
    show "\<exists>m. mines \<le> card (goodDrawn sinF sd rows cols safeZone m)"
    proof (cases "k < mines")
      case False
      with inv have "mines \<le> card (goodDrawn sinF sd rows cols safeZone n)"
        by (simp add: drawInv_def)
      then show ?thesis by blast
    next
      case True
      obtain r c where p: "drawCell sinF sd rows cols n = (r, c)"
        by (cases "drawCell sinF sd rows cols n")
      then have rc: "random_draw sinF sd cnt 0 (int rows - 1) = r"
        "random_draw sinF sd (Suc cnt) 0 (int cols - 1) = c"
        by (simp_all add: drawCell_def cnt)
      have body': "(case cellAtI b r c of
              None \<Rightarrow> Some (Inl TypeError)
            | Some x \<Rightarrow>
                if \<not> isMine x \<and> (r, c) \<notin> safeZone
                then pm sinF sd rows cols mines safeZone
                       (setCell b (nat r) (nat c) (x\<lparr>isMine := True\<rparr>)) (cnt + 2) (Suc k)
                else pm sinF sd rows cols mines safeZone b (cnt + 2) k) = Some (Inr b')"
        using body True y by (simp add: Let_def rc)
      then obtain x where at: "cellAtI b r c = Some x"
        by (cases "cellAtI b r c") simp_all
      have cnt': "cnt + 2 = 2 * Suc n" by (simp add: cnt)
      show ?thesis
      proof (cases "\<not> isMine x \<and> (r, c) \<notin> safeZone")
        case good: True
        then have "pm sinF sd rows cols mines safeZone
                (setCell b (nat r) (nat c) (x\<lparr>isMine := True\<rparr>)) (cnt + 2) (Suc k) = Some y"
          using body' at y by simp
        from IH [OF this] cnt' drawInv_place [OF inv p at] good y show ?thesis
          by blast
      next
        case False
        then have bad: "isMine x \<or> (r, c) \<in> safeZone" by simp
        have "pm sinF sd rows cols mines safeZone b (cnt + 2) k = Some y"
          using body' at y False by auto
        from IH [OF this] cnt' drawInv_skip [OF inv p at bad] y show ?thesis
          by blast
      qed
    qed
  qed
qed

lemma map_update_same: "f y = f (xs ! i) \<Longrightarrow> map f (xs[i := y]) = map f xs"
  by (induction xs arbitrary: i) (auto split: nat.splits)

lemma mineLayout_setCell_adjacent:
  "mineLayout (setCell b r c ((b ! r ! c)\<lparr>adjacentMines := n\<rparr>)) = mineLayout b"
  unfolding mineLayout_def setCell_def
  by (intro map_update_same) simp

lemma fold_keeps: "(\<And>x b. P b \<Longrightarrow> P (f x b)) \<Longrightarrow> P b \<Longrightarrow> P (fold f xs b)"
  by (induction xs arbitrary: b) auto

lemma mineLayout_adjacentPass: "mineLayout (adjacentPass rows cols b) = mineLayout b"
proof -
  have inner: "mineLayout (fold (\<lambda>c b.
            if isMine (b ! r ! c) then b
            else setCell b r c ((b ! r ! c)\<lparr>adjacentMines := countAdjacent b rows cols r c\<rparr>))
          cs b') = mineLayout b" if "mineLayout b' = mineLayout b" for r cs b'
    using that
    by (rule fold_keeps [where P = "\<lambda>b'. mineLayout b' = mineLayout b", rotated])
       (simp add: mineLayout_setCell_adjacent)
  show ?thesis
    unfolding adjacentPass_def
    by (rule fold_keeps [where P = "\<lambda>b'. mineLayout b' = mineLayout b"]) (simp_all add: inner)
qed

lemma wfBoard_layout:
  "wfBoard rows cols b
     = (length (mineLayout b) = rows \<and> list_all (\<lambda>row. length row = cols) (mineLayout b))"
  by (simp add: wfBoard_def mineLayout_def list_all_length)

lemma countCells_layout:
  "countCells isMine b = sum_list (map (\<lambda>row. length (filter (\<lambda>m. m) row)) (mineLayout b))"
  by (simp add: countCells_def mineLayout_def filter_map comp_def)

lemma mineAt_layout:
  "mineAt b p
     = (0 \<le> fst p \<and> 0 \<le> snd p \<and> nat (fst p) < length (mineLayout b)
        \<and> nat (snd p) < length (mineLayout b ! nat (fst p))
        \<and> mineLayout b ! nat (fst p) ! nat (snd p))"
  by (auto simp: mineAt_def cellAtI_def cellAt_def mineLayout_def)

lemma placeInv_layout:
  "mineLayout b' = mineLayout b \<Longrightarrow>
   placeInv rows cols mines safeZone b' k = placeInv rows cols mines safeZone b k"
  by (simp add: placeInv_def wfBoard_layout countCells_layout mineAt_layout)

lemma placeInv_emptyBoard: "placeInv rows cols mines safeZone (emptyBoard rows cols) 0"
proof -
  have "countCells isMine (emptyBoard rows cols) = 0"
    by (induction rows) (simp_all add: countCells_def emptyBoard_def)
  moreover have "\<not> mineAt (emptyBoard rows cols) p" for p
    by (auto simp: mineAt_def cellAtI_def cellAt_def emptyBoard_def split: option.splits)
  ultimately show ?thesis
    by (simp add: placeInv_def wfBoard_def emptyBoard_def list_all_length)
qed

lemma drawInv_emptyBoard: "drawInv sinF sd rows cols safeZone 0 (emptyBoard rows cols) 0"
proof -
  have "\<not> mineAt (emptyBoard rows cols) p" for p
    by (auto simp: mineAt_def cellAtI_def cellAt_def emptyBoard_def split: option.splits)
  then show ?thesis
    by (simp add: drawInv_def goodDrawn_def drawnCells_def wfBoard_def emptyBoard_def
        list_all_length)
qed

lemma generateBoardWithSeed_SomeD:
  "generateBoardWithSeed sinF sd rows cols mines safeR safeC = Some (Inr b) \<Longrightarrow>
   \<exists>b0. placeMines sinF sd rows cols mines (safeZoneOf rows cols safeR safeC)
           (emptyBoard rows cols) 0 0 = Some (Inr b0)
      \<and> b = adjacentPass rows cols b0"
  by (auto simp: generateBoardWithSeed_def split: option.splits sum.splits)

lemma generateBoardWithSeed_partial:
  assumes "generateBoardWithSeed sinF sd rows cols mines safeR safeC = Some (Inr b)"
  shows "placeInv rows cols mines (safeZoneOf rows cols safeR safeC) b mines"
proof -
  from generateBoardWithSeed_SomeD [OF assms] obtain b0
    where run: "placeMines sinF sd rows cols mines (safeZoneOf rows cols safeR safeC)
                  (emptyBoard rows cols) 0 0 = Some (Inr b0)"
      and b: "b = adjacentPass rows cols b0"
    by blast
  from placeMines_partial [OF run] placeInv_emptyBoard
  have "placeInv rows cols mines (safeZoneOf rows cols safeR safeC) b0 mines"
    by blast
  then show ?thesis
    unfolding b by (simp add: placeInv_layout [OF mineLayout_adjacentPass])
qed

lemma generateBoardWithSeed_wf:
  "generateBoardWithSeed sinF sd rows cols mines safeR safeC = Some (Inr b) \<Longrightarrow>
   wfBoard rows cols b"
  using generateBoardWithSeed_partial by (auto simp: placeInv_def)

lemma generateBoardWithSeed_returns:
  assumes "0 < rows" "0 < cols"
  shows "(\<exists>b. generateBoardWithSeed sinF sd rows cols mines safeR safeC = Some (Inr b))
           = (\<exists>n. enoughDraws sinF sd rows cols mines safeR safeC n)"
proof
  assume "\<exists>b. generateBoardWithSeed sinF sd rows cols mines safeR safeC = Some (Inr b)"
  then obtain b where "generateBoardWithSeed sinF sd rows cols mines safeR safeC = Some (Inr b)"
    by blast
  from generateBoardWithSeed_SomeD [OF this] obtain b0
    where run: "placeMines sinF sd rows cols mines (safeZoneOf rows cols safeR safeC)
                  (emptyBoard rows cols) 0 0 = Some (Inr b0)"
    by blast
  from placeMines_draws [OF run] drawInv_emptyBoard [of sinF sd rows cols]
  show "\<exists>n. enoughDraws sinF sd rows cols mines safeR safeC n"
    by (simp add: enoughDraws_card)
next
  assume "\<exists>n. enoughDraws sinF sd rows cols mines safeR safeC n"
  then obtain n
    where "mines \<le> card (goodDrawn sinF sd rows cols (safeZoneOf rows cols safeR safeC) (0 + n))"
    by (auto simp: enoughDraws_card)
  from placeMines_terminates [OF assms drawInv_emptyBoard this]
  show "\<exists>b. generateBoardWithSeed sinF sd rows cols mines safeR safeC = Some (Inr b)"
    by (auto simp: generateBoardWithSeed_def)
qed







section \<open>Properties of the handlers\<close>

text \<open>
  Reading a registry: the state of a room, its players, a player's board.  Then a room of
  two players, Ann the admin and Bob, for concrete runs.
\<close>

definition gameStateOf :: "string \<Rightarrow> server \<Rightarrow> gameState option" where
  "gameStateOf rid s = map_option gameState (map_of (rooms s) rid)"

definition playersOf :: "string \<Rightarrow> server \<Rightarrow> player list" where
  "playersOf rid s = (case map_of (rooms s) rid of None \<Rightarrow> [] | Some room \<Rightarrow> players room)"

definition boardOf :: "string \<Rightarrow> string \<Rightarrow> server \<Rightarrow> board option" where
  "boardOf rid pid s = (case playerBoards s rid of None \<Rightarrow> None | Some m \<Rightarrow> m pid)"


definition playerA :: player where
  "playerA = \<lparr>playerId = ''sockA'', playerName = ''Ann'', ready = True, isAdmin = True,
               wantsToPlayAgain = False\<rparr>"

definition playerB :: player where
  "playerB = \<lparr>playerId = ''sockB'', playerName = ''Bob'', ready = True, isAdmin = False,
               wantsToPlayAgain = False\<rparr>"

definition demoRoom :: "string \<Rightarrow> gameState \<Rightarrow> player list \<Rightarrow> room" where
  "demoRoom d g ps = \<lparr>roomId = ''ab12'', difficulty = d, players = ps,
                 gameState = g, seed = 5, gameStartTime = None, winner = None\<rparr>"

definition demoServer :: "room \<Rightarrow> (string \<rightharpoonup> board) \<Rightarrow> server" where
  "demoServer room boards =
     \<lparr>rooms = [(''ab12'', room)], playerBoards = [''ab12'' \<mapsto> boards], timers = []\<rparr>"

definition easyBoard :: board where
  "easyBoard =
     [replicate 8 mineCell, replicate 2 mineCell @ replicate 6 hiddenCell]
     @ replicate 6 (replicate 8 hiddenCell)"

definition demoBoards :: "string \<rightharpoonup> board" where
  "demoBoards = [''sockA'' \<mapsto> easyBoard, ''sockB'' \<mapsto> easyBoard]"


lemma map_of_update [simp]: "map_of (AList.update k v al) k = Some v"
  by (simp add: update_conv')

lemma length_updateFirst [simp]: "length (updateFirst P f xs) = length xs"
  by (induction xs) auto


lemma updateFirst_toggle_off:
  "find P xs = Some x \<Longrightarrow> ready x \<Longrightarrow>
   \<not> list_all ready (updateFirst P (\<lambda>p. p\<lparr>ready := \<not> ready p\<rparr>) xs)"
  by (induction xs) (auto split: if_splits)


text \<open>
  C7.  When a member of a room of at most two players sends \<open>playerReady\<close>, the sender's
  ready flag is toggled and the room is in \<open>ready\<close> afterwards exactly when it has two
  players and every player is ready; if the room was in \<open>ready\<close> and the sender was ready,
  the room is back in \<open>waiting\<close> and \<open>gameWaiting\<close> is emitted.
\<close>

theorem playerReady_ready_iff:
  assumes room: "map_of (rooms s) rid = Some room"
    and member: "find (\<lambda>p. playerId p = sid) (players room) = Some pl"
    and two: "length (players room) \<le> 2"
  shows "playersOf rid (fst (playerReady sid rid s))
           = updateFirst (\<lambda>p. playerId p = sid) (\<lambda>p. p\<lparr>ready := \<not> ready p\<rparr>) (players room)
       \<and> (gameStateOf rid (fst (playerReady sid rid s)) = Some Ready)
           = (length (playersOf rid (fst (playerReady sid rid s))) = 2
              \<and> list_all ready (playersOf rid (fst (playerReady sid rid s))))
       \<and> (gameState room = Ready \<and> ready pl
            \<longrightarrow> gameStateOf rid (fst (playerReady sid rid s)) = Some Waiting
              \<and> (ToRoom rid, GameWaiting) \<in> set (snd (playerReady sid rid s)))"
proof -
  let ?ps = "updateFirst (\<lambda>p. playerId p = sid) (\<lambda>p. p\<lparr>ready := \<not> ready p\<rparr>) (players room)"
  have off: "\<not> list_all ready ?ps" if "ready pl"
    using member that by (rule updateFirst_toggle_off)
  show ?thesis
    using room member two off
    by (auto simp: playerReady_def gameStateOf_def playersOf_def Let_def)
qed



theorem playerReady_ready_iff_witness:
  "map_of (rooms (demoServer (demoRoom ''easy'' Ready [playerA, playerB]) Map.empty)) ''ab12''
     = Some (demoRoom ''easy'' Ready [playerA, playerB])
   \<and> find (\<lambda>p. playerId p = ''sockB'') (players (demoRoom ''easy'' Ready [playerA, playerB]))
       = Some playerB
   \<and> length (players (demoRoom ''easy'' Ready [playerA, playerB])) \<le> 2
   \<and> gameState (demoRoom ''easy'' Ready [playerA, playerB]) = Ready \<and> ready playerB
   \<and> gameStateOf ''ab12''
        (fst (playerReady ''sockB'' ''ab12''
               (demoServer (demoRoom ''easy'' Ready [playerA, playerB]) Map.empty)))
       = Some Waiting
   \<and> playersOf ''ab12''
        (fst (playerReady ''sockB'' ''ab12''
               (demoServer (demoRoom ''easy'' Ready [playerA, playerB]) Map.empty)))
       = [playerA, playerB\<lparr>ready := False\<rparr>]"
proof -
  have h: "map_of (rooms (demoServer (demoRoom ''easy'' Ready [playerA, playerB]) Map.empty)) ''ab12''
             = Some (demoRoom ''easy'' Ready [playerA, playerB])"
    "find (\<lambda>p. playerId p = ''sockB'') (players (demoRoom ''easy'' Ready [playerA, playerB]))
       = Some playerB"
    "length (players (demoRoom ''easy'' Ready [playerA, playerB])) \<le> 2"
    by (simp_all add: demoServer_def demoRoom_def playerA_def playerB_def)
  have g: "gameState (demoRoom ''easy'' Ready [playerA, playerB]) = Ready" "ready playerB"
    by (simp_all add: demoRoom_def playerB_def)
  from playerReady_ready_iff [OF h] h g show ?thesis
    by (simp add: demoRoom_def playerA_def playerB_def)
qed


lemma cellAt_revealMines:
  "cellAt (revealMines b) i j
     = map_option (\<lambda>y. if isMine y then y\<lparr>isRevealed := True\<rparr> else y) (cellAt b i j)"
  by (simp add: cellAt_def revealMines_def)

lemma playingBoard_SomeD:
  "playingBoard sid rid s = Some (room, pbm, pb) \<Longrightarrow>
   map_of (rooms s) rid = Some room \<and> gameState room = Playing
   \<and> playerBoards s rid = Some pbm \<and> pbm sid = Some pb"
  by (auto simp: playingBoard_def split: option.splits if_splits)


text \<open>
  C4.  In a playing room of two players with different ids, a click of one of them on an
  unflagged mine returns with one event, \<open>gameOver\<close> with the opponent's id as \<open>winnerId\<close>
  and the sender's as \<open>loserId\<close>; the sender's board is its old board with every mine
  revealed and every other cell as it was, the opponent's board is untouched, and the room
  is \<open>finished\<close>.
\<close>

theorem cellClick_mine_hit:
  assumes pb: "playingBoard sid rid s = Some (room, pbm, pb)"
    and cell: "cellAtI pb row col = Some x" "\<not> isFlagged x" "isMine x"
    and two: "players room = [p, q]" "playerId p \<noteq> playerId q"
    and me: "sid = playerId p \<and> opp = playerId q \<or> sid = playerId q \<and> opp = playerId p"
  shows "\<exists>s' w l r.
           cellClick sid rid row col s
             = Inr (s', [(ToRoom rid, GameOver w l r (Some opp) (Some sid))])
         \<and> boardOf rid sid s' = Some (revealMines pb)
         \<and> (\<forall>i j y. cellAt pb i j = Some y \<longrightarrow>
               cellAt (revealMines pb) i j
                 = Some (if isMine y then y\<lparr>isRevealed := True\<rparr> else y))
         \<and> boardOf rid opp s' = boardOf rid opp s
         \<and> gameStateOf rid s' = Some Finished"
proof -
  from playingBoard_SomeD [OF pb]
  have st: "map_of (rooms s) rid = Some room" "playerBoards s rid = Some pbm" "pbm sid = Some pb"
    by simp_all
  have other: "find (\<lambda>u. playerId u \<noteq> sid) (players room) \<noteq> None
             \<and> map_option playerId (find (\<lambda>u. playerId u \<noteq> sid) (players room)) = Some opp"
    using two me by auto
  have ne: "opp \<noteq> sid"
    using two me by auto
  have click: "cellClick sid rid row col s = Inr (mineHit sid rid room pbm pb s)"
    using pb cell by (simp add: cellClick_def)
  show ?thesis
    unfolding click mineHit_def Let_def
    using other ne st
    by (auto simp: boardOf_def gameStateOf_def cellAt_revealMines)
qed


theorem cellClick_mine_hit_witness:
  "playingBoard ''sockA'' ''ab12'' (demoServer (demoRoom ''easy'' Playing [playerA, playerB]) demoBoards)
     = Some (demoRoom ''easy'' Playing [playerA, playerB], demoBoards, easyBoard)
   \<and> cellAtI easyBoard 1 1 = Some mineCell \<and> \<not> isFlagged mineCell \<and> isMine mineCell
   \<and> playerId playerA \<noteq> playerId playerB
   \<and> (\<exists>s' w l r.
         cellClick ''sockA'' ''ab12'' 1 1
           (demoServer (demoRoom ''easy'' Playing [playerA, playerB]) demoBoards)
           = Inr (s', [(ToRoom ''ab12'', GameOver w l r (Some ''sockB'') (Some ''sockA''))])
       \<and> boardOf ''ab12'' ''sockA'' s' = Some (revealMines easyBoard)
       \<and> boardOf ''ab12'' ''sockB'' s' = Some easyBoard
       \<and> gameStateOf ''ab12'' s' = Some Finished)"
proof -
  let ?s = "demoServer (demoRoom ''easy'' Playing [playerA, playerB]) demoBoards"
  have pb: "playingBoard ''sockA'' ''ab12'' ?s
     = Some (demoRoom ''easy'' Playing [playerA, playerB], demoBoards, easyBoard)"
    by (simp add: playingBoard_def demoServer_def demoRoom_def demoBoards_def)
  have cell: "cellAtI easyBoard 1 1 = Some mineCell" "\<not> isFlagged mineCell" "isMine mineCell"
    by code_simp+
  have two: "players (demoRoom ''easy'' Playing [playerA, playerB]) = [playerA, playerB]"
    "playerId playerA \<noteq> playerId playerB"
    "''sockA'' = playerId playerA \<and> ''sockB'' = playerId playerB
     \<or> ''sockA'' = playerId playerB \<and> ''sockB'' = playerId playerA"
    by (simp_all add: demoRoom_def playerA_def playerB_def)
  have before: "boardOf ''ab12'' ''sockB'' ?s = Some easyBoard"
    by (simp add: boardOf_def demoServer_def demoBoards_def)
  from cellClick_mine_hit [OF pb cell two] pb cell two(2) before show ?thesis
    by simp blast
qed


lemma progressOf_wf:
  "\<forall>p b. m p = Some b \<longrightarrow> wfBoard rows cols b \<Longrightarrow>
   \<exists>v. progressOf ps m rows cols mines acc = Inr v"
proof (induction ps arbitrary: acc)
  case Nil
  then show ?case by simp
next
  case (Cons a ps)
  show ?case
  proof (cases "m (playerId a)")
    case None
    with Cons show ?thesis by simp
  next
    case (Some b)
    then have "wfBoard rows cols b" using Cons.prems by blast
    with Some Cons show ?thesis
      by (simp add: getPlayerProgress_wf)
  qed
qed

lemma safeHit_wf:
  assumes "\<forall>p b. pbm p = Some b \<longrightarrow> wfBoard rows cols b" and "wfBoard rows cols pb"
  shows "\<exists>out. safeHit sid rid row col room pbm pb rows cols mines s = Inr out"
proof -
  from floodLoop_wf [OF assms(2)] obtain b'
    where fl: "floodReveal pb row col rows cols = Inr b'" and wf': "wfBoard rows cols b'"
    unfolding floodReveal_def by blast
  have "\<forall>p b. (pbm(sid \<mapsto> b')) p = Some b \<longrightarrow> wfBoard rows cols b"
    using assms(1) wf' by (auto split: if_splits)
  from progressOf_wf [OF this, of "players room" mines "[]"]
  obtain v where "progressOf (players room) (pbm(sid \<mapsto> b')) rows cols mines [] = Inr v"
    by blast
  then show ?thesis
    using fl wf' by (simp add: safeHit_def checkWin_wf getPlayerProgress_wf Let_def)
qed


text \<open>
  C9.  In a playing room whose boards have the size of its difficulty, \<open>cellClick\<close> and
  \<open>cellFlag\<close> throw a TypeError exactly when the row or the column of the event lies
  outside the board: the handlers read \<open>playerBoard[row][col]\<close> unchecked.
\<close>

theorem cellClick_cellFlag_bounds:
  assumes pb: "playingBoard sid rid s = Some (room, pbm, pb)"
    and dims: "getDifficultySettings (difficulty room) = Settings rows cols mines"
    and wf: "\<forall>p b. pbm p = Some b \<longrightarrow> wfBoard rows cols b"
  shows "(cellClick sid rid row col s = Inl TypeError)
           = (\<not> (0 \<le> row \<and> row < int rows \<and> 0 \<le> col \<and> col < int cols))
       \<and> (cellFlag sid rid row col s = Inl TypeError)
           = (\<not> (0 \<le> row \<and> row < int rows \<and> 0 \<le> col \<and> col < int cols))"
proof -
  from playingBoard_SomeD [OF pb] wf have wfpb: "wfBoard rows cols pb"
    by blast
  note at = cellAtI_wf [OF wfpb, of row col]
  show ?thesis
  proof (cases "0 \<le> row \<and> row < int rows \<and> 0 \<le> col \<and> col < int cols")
    case False
    with at pb show ?thesis
      by (simp add: cellClick_def cellFlag_def)
  next
    case True
    let ?x = "pb ! nat row ! nat col"
    from safeHit_wf [OF wf wfpb, of sid rid row col room mines s]
    obtain out where sh: "safeHit sid rid row col room pbm pb rows cols mines s = Inr out"
      by blast
    have click: "cellClick sid rid row col s \<noteq> Inl TypeError"
      using True at pb dims sh by (simp add: cellClick_def)
    have "wfBoard rows cols (setCell pb (nat row) (nat col) (?x\<lparr>isFlagged := \<not> isFlagged ?x\<rparr>))"
      using wfpb by (rule wfBoard_setCell)
    then have flag: "cellFlag sid rid row col s \<noteq> Inl TypeError"
      using True at pb dims by (simp add: cellFlag_def getPlayerProgress_wf Let_def)
    from click flag True show ?thesis by simp
  qed
qed

theorem cellClick_cellFlag_bounds_witness:
  "playingBoard ''sockA'' ''ab12'' (demoServer (demoRoom ''easy'' Playing [playerA, playerB]) demoBoards)
     = Some (demoRoom ''easy'' Playing [playerA, playerB], demoBoards, easyBoard)
   \<and> getDifficultySettings (difficulty (demoRoom ''easy'' Playing [playerA, playerB]))
       = Settings 8 8 10
   \<and> dom demoBoards = {''sockA'', ''sockB''} \<and> wfBoard 8 8 easyBoard
   \<and> cellClick ''sockA'' ''ab12'' 8 0
        (demoServer (demoRoom ''easy'' Playing [playerA, playerB]) demoBoards) = Inl TypeError
   \<and> cellFlag ''sockA'' ''ab12'' 0 (- 1)
        (demoServer (demoRoom ''easy'' Playing [playerA, playerB]) demoBoards) = Inl TypeError
   \<and> cellClick ''sockA'' ''ab12'' 7 7
        (demoServer (demoRoom ''easy'' Playing [playerA, playerB]) demoBoards) \<noteq> Inl TypeError
   \<and> cellFlag ''sockA'' ''ab12'' 7 7
        (demoServer (demoRoom ''easy'' Playing [playerA, playerB]) demoBoards) \<noteq> Inl TypeError"
proof -
  let ?s = "demoServer (demoRoom ''easy'' Playing [playerA, playerB]) demoBoards"
  have pb: "playingBoard ''sockA'' ''ab12'' ?s
     = Some (demoRoom ''easy'' Playing [playerA, playerB], demoBoards, easyBoard)"
    by (simp add: playingBoard_def demoServer_def demoRoom_def demoBoards_def)
  have dims: "getDifficultySettings (difficulty (demoRoom ''easy'' Playing [playerA, playerB]))
       = Settings 8 8 10"
    by (simp add: getDifficultySettings_def settings_def demoRoom_def)
  have wfe: "wfBoard 8 8 easyBoard"
    by code_simp
  then have wf: "\<forall>p b. demoBoards p = Some b \<longrightarrow> wfBoard 8 8 b"
    by (auto simp: demoBoards_def split: if_splits)
  have d: "dom demoBoards = {''sockA'', ''sockB''}"
    by (auto simp: demoBoards_def)
  from cellClick_cellFlag_bounds [OF pb dims wf, of 8 0]
    cellClick_cellFlag_bounds [OF pb dims wf, of 0 "- 1"]
    cellClick_cellFlag_bounds [OF pb dims wf, of 7 7] pb dims wfe d
  show ?thesis
    by simp
qed


section \<open>startGame and the countdown\<close>

text \<open>
  Reading what a handler returned: the registry and the events, or the initial registry
  and no event when it threw or never returned.
\<close>

definition started :: "outcome option \<Rightarrow> server" where
  "started out = (case out of Some (Inr (s, ev)) \<Rightarrow> s | _ \<Rightarrow> initialServer)"

definition emittedBy :: "outcome option \<Rightarrow> emitted" where
  "emittedBy out = (case out of Some (Inr (s, ev)) \<Rightarrow> ev | _ \<Rightarrow> [])"


definition afterOutcome :: "outcome \<Rightarrow> server" where
  "afterOutcome out = (case out of Inr (s, ev) \<Rightarrow> s | Inl e \<Rightarrow> initialServer)"

definition emittedOf :: "outcome \<Rightarrow> emitted" where
  "emittedOf out = (case out of Inr (s, ev) \<Rightarrow> ev | Inl e \<Rightarrow> [])"


definition threw :: "outcome option \<Rightarrow> bool" where
  "threw out = (case out of Some (Inl e) \<Rightarrow> True | _ \<Rightarrow> False)"


definition demoReady :: server where
  "demoReady = demoServer (demoRoom ''easy'' Ready [playerA, playerB]) Map.empty"

definition demoTicked :: server where
  "demoTicked =
     afterOutcome (countdownTick 0 1 (started (startGame demoSin ''sockA'' ''ab12'' 0 demoReady)))"


lemma countdownTick_rooms:
  "countdownTick i now s = Inr (s', ev) \<Longrightarrow>
   rooms s' = rooms s \<and> playerBoards s' = playerBoards s"
  by (auto simp: countdownTick_def Let_def split: if_splits sum.splits)

lemma countdownTick_events:
  "countdownTick i now s = Inr (s', ev) \<Longrightarrow> i < length (timers s) \<Longrightarrow>
   (if 1 < countdown (timers s ! i)
    then ev = [(ToRoom (timerRoomId (timers s ! i)), CountdownUpdate (countdown (timers s ! i) - 1))]
       \<and> timers s' = (timers s)[i := (timers s ! i)\<lparr>countdown := countdown (timers s ! i) - 1\<rparr>]
    else (\<exists>p. ev = [(ToRoom (timerRoomId (timers s ! i)),
                      CountdownUpdate (countdown (timers s ! i) - 1)),
                    (ToRoom (timerRoomId (timers s ! i)),
                      GameStarted now (revealedBoard (timers s ! i)) (firstClick (timers s ! i))),
                    (ToRoom (timerRoomId (timers s ! i)), ProgressUpdate p)])
       \<and> timers s' = take i (timers s) @ drop (Suc i) (timers s))"
  by (auto simp: countdownTick_def Let_def split: if_splits sum.splits)


text \<open>
  C2, as the code has it.  When the admin of a room of two or more players sends
  \<open>startGame\<close> and the board is generated, the handler returns with the room already in
  \<open>playing\<close>: it emits \<open>countdownStarted\<close> and leaves a timer at 5, and no tick of any timer
  changes the state of a room.  The countdown delays the \<open>gameStarted\<close> broadcast only.
\<close>

theorem startGame_playing_at_once:
  assumes room: "map_of (rooms s) rid = Some room"
    and two: "2 \<le> length (players room)"
    and admin: "find (\<lambda>p. playerId p = sid) (players room) = Some pl" "isAdmin pl"
    and dims: "getDifficultySettings (difficulty room) = Settings rows cols mines"
    and boards: "playerBoards s rid = Some pbm"
    and gen: "generateBoardWithSeed sinF (seed room) rows cols mines
                (random_draw sinF (seed room) 0 0 (int rows - 1))
                (random_draw sinF (seed room) 1 0 (int cols - 1)) = Some (Inr roomBoard)"
  shows "\<exists>s' fc revealed.
           startGame sinF sid rid now s = Some (Inr (s', [(ToRoom rid, CountdownStarted 5 fc)]))
         \<and> gameStateOf rid s' = Some Playing
         \<and> timers s' = timers s @
             [\<lparr>timerRoomId = rid, countdown = 5, revealedBoard = revealed, firstClick = fc,
               timerRows = rows, timerCols = cols, timerMines = mines\<rparr>]
         \<and> (\<forall>i t s'' ev. countdownTick i t s' = Inr (s'', ev) \<longrightarrow>
               gameStateOf rid s'' = Some Playing
               \<and> (i < length (timers s') \<and> 1 < countdown (timers s' ! i) \<longrightarrow>
                    ev = [(ToRoom (timerRoomId (timers s' ! i)),
                           CountdownUpdate (countdown (timers s' ! i) - 1))])
               \<and> (i < length (timers s') \<and> countdown (timers s' ! i) \<le> 1 \<longrightarrow>
                    (\<exists>p. ev = [(ToRoom (timerRoomId (timers s' ! i)),
                                  CountdownUpdate (countdown (timers s' ! i) - 1)),
                                (ToRoom (timerRoomId (timers s' ! i)),
                                  GameStarted t (revealedBoard (timers s' ! i))
                                    (firstClick (timers s' ! i))),
                                (ToRoom (timerRoomId (timers s' ! i)), ProgressUpdate p)])))"
proof -
  let ?fr = "random_draw sinF (seed room) 0 0 (int rows - 1)"
  let ?fc = "random_draw sinF (seed room) 1 0 (int cols - 1)"
  from generateBoardWithSeed_wf [OF gen] have "wfBoard rows cols roomBoard" .
  from floodLoop_wf [OF this] obtain revealed
    where fl: "floodReveal roomBoard ?fr ?fc rows cols = Inr revealed"
    unfolding floodReveal_def by blast
  have bg: "\<exists>s'. beginGame sinF rid now room rows cols mines s
                 = Some (Inr (s', [(ToRoom rid, CountdownStarted 5 (?fr, ?fc))]))
               \<and> gameStateOf rid s' = Some Playing
               \<and> timers s' = timers s @
                   [\<lparr>timerRoomId = rid, countdown = 5, revealedBoard = revealed,
                     firstClick = (?fr, ?fc),
                     timerRows = rows, timerCols = cols, timerMines = mines\<rparr>]"
    using gen boards fl by (simp add: beginGame_def Let_def gameStateOf_def)
  have start: "startGame sinF sid rid now s = beginGame sinF rid now room rows cols mines s"
    using room two admin dims by (simp add: startGame_def)
  from bg obtain s' where s': "beginGame sinF rid now room rows cols mines s
                 = Some (Inr (s', [(ToRoom rid, CountdownStarted 5 (?fr, ?fc))]))"
      "gameStateOf rid s' = Some Playing"
      "timers s' = timers s @
                   [\<lparr>timerRoomId = rid, countdown = 5, revealedBoard = revealed,
                     firstClick = (?fr, ?fc),
                     timerRows = rows, timerCols = cols, timerMines = mines\<rparr>]"
    by blast
  have tick: "gameStateOf rid s'' = Some Playing
               \<and> (i < length (timers s') \<and> 1 < countdown (timers s' ! i) \<longrightarrow>
                    ev = [(ToRoom (timerRoomId (timers s' ! i)),
                           CountdownUpdate (countdown (timers s' ! i) - 1))])
               \<and> (i < length (timers s') \<and> countdown (timers s' ! i) \<le> 1 \<longrightarrow>
                    (\<exists>p. ev = [(ToRoom (timerRoomId (timers s' ! i)),
                                  CountdownUpdate (countdown (timers s' ! i) - 1)),
                                (ToRoom (timerRoomId (timers s' ! i)),
                                  GameStarted t (revealedBoard (timers s' ! i))
                                    (firstClick (timers s' ! i))),
                                (ToRoom (timerRoomId (timers s' ! i)), ProgressUpdate p)]))"
    if run: "countdownTick i t s' = Inr (s'', ev)" for i t s'' ev
  proof -
    have "gameStateOf rid s'' = Some Playing"
      using countdownTick_rooms [OF run] s'(2) by (simp add: gameStateOf_def)
    moreover have "ev = [(ToRoom (timerRoomId (timers s' ! i)),
                           CountdownUpdate (countdown (timers s' ! i) - 1))]"
      if "i < length (timers s')" "1 < countdown (timers s' ! i)"
      using countdownTick_events [OF run that(1)] that(2) by simp
    moreover have "\<exists>p. ev = [(ToRoom (timerRoomId (timers s' ! i)),
                                  CountdownUpdate (countdown (timers s' ! i) - 1)),
                                (ToRoom (timerRoomId (timers s' ! i)),
                                  GameStarted t (revealedBoard (timers s' ! i))
                                    (firstClick (timers s' ! i))),
                                (ToRoom (timerRoomId (timers s' ! i)), ProgressUpdate p)]"
      if "i < length (timers s')" "countdown (timers s' ! i) \<le> 1"
      using countdownTick_events [OF run that(1)] that(2) by simp
    ultimately show ?thesis by blast
  qed
  from s' start tick show ?thesis
    by (intro exI [of _ s'] exI [of _ "(?fr, ?fc)"] exI [of _ revealed] conjI allI impI)
       (simp_all only:)
qed


theorem startGame_playing_at_once_witness:
  "map_of (rooms demoReady) ''ab12'' = Some (demoRoom ''easy'' Ready [playerA, playerB])
   \<and> 2 \<le> length (players (demoRoom ''easy'' Ready [playerA, playerB]))
   \<and> find (\<lambda>p. playerId p = ''sockA'') (players (demoRoom ''easy'' Ready [playerA, playerB]))
       = Some playerA
   \<and> isAdmin playerA
   \<and> getDifficultySettings (difficulty (demoRoom ''easy'' Ready [playerA, playerB]))
       = Settings 8 8 10
   \<and> playerBoards demoReady ''ab12'' = Some Map.empty
   \<and> (\<exists>b. generateBoardWithSeed demoSin 5 8 8 10 6 0 = Some (Inr b))
   \<and> (\<exists>s' fc. startGame demoSin ''sockA'' ''ab12'' 0 demoReady
                  = Some (Inr (s', [(ToRoom ''ab12'', CountdownStarted 5 fc)]))
              \<and> gameStateOf ''ab12'' s' = Some Playing
              \<and> map countdown (timers s') = [5])"
proof -
  let ?room = "demoRoom ''easy'' Ready [playerA, playerB]"
  have h: "map_of (rooms demoReady) ''ab12'' = Some ?room"
    "2 \<le> length (players ?room)"
    "find (\<lambda>p. playerId p = ''sockA'') (players ?room) = Some playerA"
    "isAdmin playerA"
    by (simp_all add: demoReady_def demoServer_def demoRoom_def playerA_def playerB_def)
  have d: "getDifficultySettings (difficulty ?room) = Settings 8 8 10"
    by (simp add: getDifficultySettings_def settings_def demoRoom_def)
  have b: "playerBoards demoReady ''ab12'' = Some Map.empty"
    by (simp add: demoReady_def demoServer_def)
  have sd: "seed ?room = 5"
    by (simp add: demoRoom_def)
  have rd: "random_draw demoSin 5 0 0 (int 8 - 1) = 6" "random_draw demoSin 5 1 0 (int 8 - 1) = 0"
    by code_simp+
  have "enoughDraws demoSin 5 8 8 10 6 0 22"
    by code_simp
  then have "\<exists>b. generateBoardWithSeed demoSin 5 8 8 10 6 0 = Some (Inr b)"
    using generateBoardWithSeed_returns [of 8 8 demoSin 5 10 6 0] by auto
  then obtain roomBoard where g: "generateBoardWithSeed demoSin 5 8 8 10 6 0 = Some (Inr roomBoard)"
    by blast
  then have gen: "generateBoardWithSeed demoSin (seed ?room) 8 8 10
                (random_draw demoSin (seed ?room) 0 0 (int 8 - 1))
                (random_draw demoSin (seed ?room) 1 0 (int 8 - 1)) = Some (Inr roomBoard)"
    by (simp only: sd rd)
  from startGame_playing_at_once [OF h d b gen, of 0] obtain s' fc revealed
    where "startGame demoSin ''sockA'' ''ab12'' 0 demoReady
             = Some (Inr (s', [(ToRoom ''ab12'', CountdownStarted 5 fc)]))"
      and "gameStateOf ''ab12'' s' = Some Playing"
      and "timers s' = timers demoReady @
             [\<lparr>timerRoomId = ''ab12'', countdown = 5, revealedBoard = revealed, firstClick = fc,
               timerRows = 8, timerCols = 8, timerMines = 10\<rparr>]"
    by blast
  moreover have "timers demoReady = []"
    by (simp add: demoReady_def demoServer_def)
  ultimately have "\<exists>s' fc. startGame demoSin ''sockA'' ''ab12'' 0 demoReady
                  = Some (Inr (s', [(ToRoom ''ab12'', CountdownStarted 5 fc)]))
              \<and> gameStateOf ''ab12'' s' = Some Playing
              \<and> map countdown (timers s') = [5]"
    by auto
  with h d b g show ?thesis
    by blast
qed


text \<open>
  C2 as stated fails on an easy room: when \<open>startGame\<close> returns the timer stands at 5 and
  the room is in \<open>playing\<close>; after the first tick, with the timer at 4, it still is.
\<close>

theorem startGame_sets_playing_before_ticks:
  "gameStateOf ''ab12'' demoReady = Some Ready
   \<and> gameStateOf ''ab12'' (started (startGame demoSin ''sockA'' ''ab12'' 0 demoReady)) = Some Playing
   \<and> map countdown (timers (started (startGame demoSin ''sockA'' ''ab12'' 0 demoReady))) = [5]
   \<and> emittedBy (startGame demoSin ''sockA'' ''ab12'' 0 demoReady)
       = [(ToRoom ''ab12'', CountdownStarted 5 (6, 0))]
   \<and> emittedOf (countdownTick 0 1 (started (startGame demoSin ''sockA'' ''ab12'' 0 demoReady)))
       = [(ToRoom ''ab12'', CountdownUpdate 4)]
   \<and> gameStateOf ''ab12'' demoTicked = Some Playing
   \<and> map countdown (timers demoTicked) = [4]"
  by code_simp


section \<open>The states the server stores\<close>

text \<open>
  The registries the server can be in: the initial one, and what a handler or a tick that
  returns makes of one.  A handler that throws ends the process.  In each of them no
  room is in \<open>post_game\<close> or \<open>countdown\<close>, and no room has more than two players.
\<close>

inductive reachable :: "(int \<Rightarrow> real) \<Rightarrow> server \<Rightarrow> bool" for sinF where
  init: "reachable sinF initialServer"
| create: "reachable sinF s \<Longrightarrow> reachable sinF (fst (createRoom sid u newSeed d name s))"
| join: "reachable sinF s \<Longrightarrow> reachable sinF (fst (joinRoom sid rid name s))"
| toggle: "reachable sinF s \<Longrightarrow> reachable sinF (fst (playerReady sid rid s))"
| start: "reachable sinF s \<Longrightarrow> startGame sinF sid rid now s = Some (Inr (s', ev)) \<Longrightarrow>
          reachable sinF s'"
| tick: "reachable sinF s \<Longrightarrow> countdownTick i now s = Inr (s', ev) \<Longrightarrow> reachable sinF s'"
| click: "reachable sinF s \<Longrightarrow> cellClick sid rid row col s = Inr (s', ev) \<Longrightarrow>
          reachable sinF s'"
| flag: "reachable sinF s \<Longrightarrow> cellFlag sid rid row col s = Inr (s', ev) \<Longrightarrow>
         reachable sinF s'"
| again: "reachable sinF s \<Longrightarrow> reachable sinF (fst (playAgain sid rid newSeed s))"
| lobby: "reachable sinF s \<Longrightarrow> reachable sinF (fst (returnToLobby sid rid u newSeed s))"
| gone: "reachable sinF s \<Longrightarrow> reachable sinF (fst (disconnect sid u newSeed s))"

definition roomOk :: "string \<times> room \<Rightarrow> bool" where
  "roomOk kr = (gameState (snd kr) \<noteq> PostGame \<and> gameState (snd kr) \<noteq> Countdown
                \<and> length (players (snd kr)) \<le> 2)"

definition roomsOk :: "server \<Rightarrow> bool" where
  "roomsOk s = list_all roomOk (rooms s)"

lemma list_all_update: "P (k, v) \<Longrightarrow> list_all P al \<Longrightarrow> list_all P (AList.update k v al)"
  by (induction al) auto

lemma list_all_delete: "list_all P al \<Longrightarrow> list_all P (AList.delete k al)"
  by (induction al) auto

lemma list_all_map_of: "map_of al k = Some v \<Longrightarrow> list_all P al \<Longrightarrow> P (k, v)"
  by (auto simp: list_all_iff dest: map_of_SomeD)

lemma length_removeFirst: "length (removeFirst P xs) \<le> length xs"
  by (induction xs) auto

lemma roomsOk_update:
  "roomsOk s \<Longrightarrow> roomOk (k, r) \<Longrightarrow> roomsOk (s\<lparr>rooms := AList.update k r (rooms s)\<rparr>)"
  by (simp add: roomsOk_def list_all_update)

lemma roomsOk_lookup: "roomsOk s \<Longrightarrow> map_of (rooms s) k = Some r \<Longrightarrow> roomOk (k, r)"
  unfolding roomsOk_def by (rule list_all_map_of)

lemma roomsOk_createRoom: "roomsOk s \<Longrightarrow> roomsOk (fst (createRoom sid u newSeed d name s))"
  by (simp add: createRoom_def Let_def roomsOk_def list_all_update roomOk_def newRoomFor_def)

lemma roomsOk_joinRoom: "roomsOk s \<Longrightarrow> roomsOk (fst (joinRoom sid rid name s))"
  by (auto simp: joinRoom_def Let_def roomsOk_def roomOk_def
      intro!: list_all_update dest: list_all_map_of split: option.splits)

lemma roomsOk_playerReady: "roomsOk s \<Longrightarrow> roomsOk (fst (playerReady sid rid s))"
  by (auto simp: playerReady_def Let_def roomsOk_def roomOk_def
      intro!: list_all_update dest: list_all_map_of split: option.splits)

lemma roomsOk_change:
  assumes "roomsOk s" "map_of (rooms s) rid = Some room"
    and "gameState room' \<noteq> PostGame" "gameState room' \<noteq> Countdown"
    and "length (players room') \<le> length (players room)"
    and "rooms s' = AList.update rid room' (rooms s)"
  shows "roomsOk s'"
proof -
  from roomsOk_lookup [OF assms(1,2)] assms(3,4,5) have "roomOk (rid, room')"
    by (simp add: roomOk_def)
  with assms(1,6) show ?thesis
    by (simp add: roomsOk_def list_all_update)
qed

lemma roomsOk_same: "roomsOk s \<Longrightarrow> rooms s' = rooms s \<Longrightarrow> roomsOk s'"
  by (simp add: roomsOk_def)

lemma beginGame_rooms:
  assumes "beginGame sinF rid now room rows cols mines s = Some (Inr (s', ev))"
  shows "rooms s' = AList.update rid (room\<lparr>gameState := Playing, gameStartTime := Some now\<rparr>) (rooms s)"
proof -
  let ?fr = "random_draw sinF (seed room) 0 0 (int rows - 1)"
  let ?fc = "random_draw sinF (seed room) 1 0 (int cols - 1)"
  from assms obtain roomBoard
    where gen: "generateBoardWithSeed sinF (seed room) rows cols mines ?fr ?fc = Some (Inr roomBoard)"
    by (cases "generateBoardWithSeed sinF (seed room) rows cols mines ?fr ?fc")
       (auto simp: beginGame_def Let_def split: sum.splits)
  from assms gen obtain pbm where pbm: "playerBoards s rid = Some pbm"
    by (cases "playerBoards s rid") (simp_all add: beginGame_def Let_def)
  from assms gen pbm obtain revealed
    where fl: "floodReveal roomBoard ?fr ?fc rows cols = Inr revealed"
    by (cases "floodReveal roomBoard ?fr ?fc rows cols") (simp_all add: beginGame_def Let_def)
  from assms gen pbm fl show ?thesis
    by (auto simp: beginGame_def Let_def)
qed

lemma roomsOk_startGame_step:
  assumes run: "startGame sinF sid rid now s = Some (Inr (s', ev))"
    and room: "map_of (rooms s) rid = Some room" and changed: "rooms s' \<noteq> rooms s"
  shows "\<exists>rows cols mines. beginGame sinF rid now room rows cols mines s = Some (Inr (s', ev))"
proof (cases "getDifficultySettings (difficulty room)")
  case (Settings rows cols mines)
  have "beginGame sinF rid now room rows cols mines s = Some (Inr (s', ev))"
  proof (cases "length (players room) < 2")
    case True
    with run room changed show ?thesis by (simp add: startGame_def)
  next
    case False
    show ?thesis
    proof (cases "find (\<lambda>p. playerId p = sid) (players room)")
      case None
      with run room changed False show ?thesis by (simp add: startGame_def)
    next
      case (Some pl)
      with run room changed False Settings show ?thesis
        by (cases "isAdmin pl") (simp_all add: startGame_def)
    qed
  qed
  then show ?thesis by blast
next
  case (Inherited k)
  with run room changed show ?thesis
    by (auto simp: startGame_def split: option.splits if_splits)
qed


lemma roomsOk_startGame:
  assumes ok: "roomsOk s" and run: "startGame sinF sid rid now s = Some (Inr (s', ev))"
  shows "roomsOk s'"
proof (cases "rooms s' = rooms s")
  case True
  with ok show ?thesis by (rule roomsOk_same)
next
  case False
  then obtain room where room: "map_of (rooms s) rid = Some room"
    using run by (cases "map_of (rooms s) rid") (auto simp: startGame_def)
  from roomsOk_startGame_step [OF run room False] obtain rows cols mines
    where "beginGame sinF rid now room rows cols mines s = Some (Inr (s', ev))"
    by blast
  from beginGame_rooms [OF this]
  show ?thesis
    by (rule roomsOk_change [OF ok room, rotated 3]) simp_all
qed

lemma roomsOk_countdownTick:
  "roomsOk s \<Longrightarrow> countdownTick i now s = Inr (s', ev) \<Longrightarrow> roomsOk s'"
  using countdownTick_rooms by (simp add: roomsOk_def)

lemma mineHit_rooms:
  "rooms (fst (mineHit sid rid room pbm pb s))
     = AList.update rid
         (room\<lparr>gameState := Finished,
               winner := Some (nameOrUnknown (find (\<lambda>p. playerId p \<noteq> sid) (players room)))\<rparr>)
         (rooms s)"
  by (simp add: mineHit_def Let_def)

lemma safeHit_rooms:
  "safeHit sid rid row col room pbm pb rows cols mines s = Inr (s', ev) \<Longrightarrow>
   rooms s' = rooms s
   \<or> rooms s' = AList.update rid
        (room\<lparr>gameState := Finished,
              winner := Some (nameOrUnknown (find (\<lambda>p. playerId p = sid) (players room)))\<rparr>)
        (rooms s)"
  by (auto simp: safeHit_def Let_def split: sum.splits if_splits)

lemma roomsOk_finished:
  assumes "roomsOk s" "map_of (rooms s) rid = Some room"
    and "rooms s' = AList.update rid (room\<lparr>gameState := Finished, winner := w\<rparr>) (rooms s)"
  shows "roomsOk s'"
  by (rule roomsOk_change [OF assms(1,2), rotated 3, OF assms(3)]) simp_all

lemma roomsOk_cellClick:
  assumes ok: "roomsOk s" and run: "cellClick sid rid row col s = Inr (s', ev)"
  shows "roomsOk s'"
proof (cases "playingBoard sid rid s")
  case None
  with run have "s' = s" by (simp add: cellClick_def)
  with ok show ?thesis by simp
next
  case (Some t)
  obtain room pbm pb where t: "t = (room, pbm, pb)" by (cases t)
  from playingBoard_SomeD [OF Some [unfolded t]] have room: "map_of (rooms s) rid = Some room"
    by simp
  from run Some t obtain x where x: "cellAtI pb row col = Some x"
    by (cases "cellAtI pb row col") (simp_all add: cellClick_def)
  show ?thesis
  proof (cases "isFlagged x")
    case True
    with run Some t x have "s' = s" by (simp add: cellClick_def)
    with ok show ?thesis by simp
  next
    case nf: False
    show ?thesis
    proof (cases "isMine x")
      case True
      with run Some t x nf have "s' = fst (mineHit sid rid room pbm pb s)"
        by (simp add: cellClick_def)
      with mineHit_rooms [of sid rid room pbm pb s]
      have "rooms s' = AList.update rid
              (room\<lparr>gameState := Finished,
                    winner := Some (nameOrUnknown (find (\<lambda>p. playerId p \<noteq> sid) (players room)))\<rparr>)
              (rooms s)"
        by simp
      with ok room show ?thesis by (rule roomsOk_finished)
    next
      case False
      with run Some t x nf obtain rows cols mines
        where "safeHit sid rid row col room pbm pb rows cols mines s = Inr (s', ev)"
        by (auto simp: cellClick_def split: settingsValue.splits)
      from safeHit_rooms [OF this] ok room show ?thesis
        by (auto intro: roomsOk_same roomsOk_finished)
    qed
  qed
qed

lemma cellFlag_rooms: "cellFlag sid rid row col s = Inr (s', ev) \<Longrightarrow> rooms s' = rooms s"
  by (auto simp: cellFlag_def Let_def split: option.splits if_splits sum.splits prod.splits)

lemma roomsOk_cellFlag:
  "roomsOk s \<Longrightarrow> cellFlag sid rid row col s = Inr (s', ev) \<Longrightarrow> roomsOk s'"
  using cellFlag_rooms roomsOk_same by blast


lemma roomsOk_playAgain: "roomsOk s \<Longrightarrow> roomsOk (fst (playAgain sid rid newSeed s))"
proof (cases "map_of (rooms s) rid")
  case None
  assume "roomsOk s"
  with None show ?thesis by (simp add: playAgain_def)
next
  case (Some room)
  assume ok: "roomsOk s"
  show ?thesis
  proof (cases "find (\<lambda>p. playerId p = sid) (players room)")
    case None
    with Some ok show ?thesis by (simp add: playAgain_def)
  next
    case (Some pl)
    let ?ps = "updateFirst (\<lambda>p. playerId p = sid) (\<lambda>p. p\<lparr>wantsToPlayAgain := True\<rparr>)
                 (players room)"
    from roomsOk_lookup [OF ok \<open>map_of (rooms s) rid = Some room\<close>]
    have r: "roomOk (rid, room)" .
    have a: "roomOk (rid, room\<lparr>players := ?ps\<rparr>)"
      using r by (simp add: roomOk_def)
    have b: "roomOk (rid, room\<lparr>players :=
                 map (\<lambda>p. p\<lparr>ready := False, wantsToPlayAgain := False\<rparr>) ?ps,
               gameState := Waiting, winner := None, gameStartTime := None, seed := newSeed\<rparr>)"
      using r by (simp add: roomOk_def)
    show ?thesis
      using \<open>map_of (rooms s) rid = Some room\<close> Some ok a b
      by (simp add: playAgain_def Let_def roomsOk_def list_all_update)
  qed
qed

lemma roomsOk_leaveRoom:
  assumes "roomsOk s" "roomOk (rid, room)"
  shows "roomsOk (leaveRoom sid rid room s)"
proof -
  have "roomOk (rid, room\<lparr>players := removeFirst (\<lambda>p. playerId p = sid) (players room)\<rparr>)"
    using assms(2) length_removeFirst [of "\<lambda>p. playerId p = sid" "players room"]
    by (simp add: roomOk_def)
  with assms(1) show ?thesis
    by (simp add: leaveRoom_def Let_def roomsOk_def list_all_update list_all_delete)
qed

lemma roomsOk_returnToLobby:
  assumes "roomsOk s"
  shows "roomsOk (fst (returnToLobby sid rid u newSeed s))"
proof (cases "map_of (rooms s) rid")
  case None
  with assms show ?thesis by (simp add: returnToLobby_def)
next
  case (Some room)
  from roomsOk_lookup [OF assms Some] have ok: "roomOk (rid, room)" .
  then have np: "gameState room \<noteq> PostGame" by (simp add: roomOk_def)
  show ?thesis
  proof (cases "find (\<lambda>p. playerId p = sid) (players room)")
    case None
    with Some assms show ?thesis by (simp add: returnToLobby_def)
  next
    case (Some pl)
    with \<open>map_of (rooms s) rid = Some room\<close> np roomsOk_leaveRoom [OF assms ok, of sid]
    show ?thesis by (simp add: returnToLobby_def)
  qed
qed

lemma find_rooms_SomeD:
  "find P al = Some (k, r) \<Longrightarrow> list_all Q al \<Longrightarrow> Q (k, r)"
  by (auto simp: find_Some_iff list_all_length)

lemma roomsOk_disconnect:
  assumes "roomsOk s"
  shows "roomsOk (fst (disconnect sid u newSeed s))"
proof (cases "find (\<lambda>(rid, room). find (\<lambda>p. playerId p = sid) (players room) \<noteq> None) (rooms s)")
  case None
  with assms show ?thesis by (simp add: disconnect_def)
next
  case (Some kr)
  obtain rid room where kr: "kr = (rid, room)" by (cases kr)
  from find_rooms_SomeD [OF Some [unfolded kr]] assms have ok: "roomOk (rid, room)"
    by (simp add: roomsOk_def)
  then have np: "gameState room \<noteq> PostGame" by (simp add: roomOk_def)
  have s1: "roomsOk (leaveRoom sid rid room s)"
    using assms ok by (rule roomsOk_leaveRoom)
  have fin: "roomOk (rid, room\<lparr>players := removeFirst (\<lambda>p. playerId p = sid) (players room),
                              gameState := Finished, winner := w\<rparr>)" for w
    using ok length_removeFirst [of "\<lambda>p. playerId p = sid" "players room"]
    by (simp add: roomOk_def)
  show ?thesis
    using Some np s1 fin unfolding kr
    by (simp add: disconnect_def Let_def roomsOk_update)
qed

lemma reachable_roomsOk: "reachable sinF s \<Longrightarrow> roomsOk s"
proof (induction rule: reachable.induct)
  case init
  show ?case by (simp add: roomsOk_def initialServer_def)
qed (auto intro: roomsOk_createRoom roomsOk_joinRoom roomsOk_playerReady roomsOk_startGame
      roomsOk_countdownTick roomsOk_cellClick roomsOk_cellFlag roomsOk_playAgain
      roomsOk_returnToLobby roomsOk_disconnect)

lemma returnToLobby_moves_in_post_game:
  "map_of (rooms s) rid = Some room \<Longrightarrow>
   find (\<lambda>p. playerId p = sid) (players room) = Some pl \<Longrightarrow>
   wantsToPlayAgain pl \<Longrightarrow> gameState room = PostGame \<Longrightarrow>
   snd (returnToLobby sid rid u newSeed s)
     = [(ToOthers rid sid, PlayerLeft sid),
        (ToSocket sid, MovedToNewRoom (generateRoomId u)
           (newRoomFor (generateRoomId u) (difficulty room) sid (playerName pl) newSeed))]"
  by (simp add: returnToLobby_def Let_def)

lemma returnToLobby_reachable_never_moves:
  assumes "reachable sinF s"
  shows "snd (returnToLobby sid rid u newSeed s) = []
       \<or> snd (returnToLobby sid rid u newSeed s)
           = [(ToOthers rid sid, PlayerLeft sid), (ToSocket sid, ReturnedToLobby)]"
proof (cases "map_of (rooms s) rid")
  case None
  then show ?thesis by (simp add: returnToLobby_def)
next
  case (Some room)
  from roomsOk_lookup [OF reachable_roomsOk [OF assms] Some]
  have "gameState room \<noteq> PostGame" by (simp add: roomOk_def)
  with Some show ?thesis
    by (cases "find (\<lambda>p. playerId p = sid) (players room)") (simp_all add: returnToLobby_def)
qed

section \<open>returnToLobby after a game\<close>

text \<open>After a mine: Bob hits the mine at \<open>(1, 1)\<close>, then Ann asks to play again.\<close>

definition demoPlaying :: server where
  "demoPlaying = demoServer (demoRoom ''easy'' Playing [playerA, playerB]) demoBoards"

definition demoFinished :: server where
  "demoFinished = afterOutcome (cellClick ''sockB'' ''ab12'' 1 1 demoPlaying)"

definition demoRematch :: server where
  "demoRematch = fst (playAgain ''sockA'' ''ab12'' 9 demoFinished)"


text \<open>
  C8 fails on the code.  After Bob's mine the room is stored as \<open>finished\<close>, and it stays
  so when Ann asks to play again; her \<open>returnToLobby\<close> then takes the plain branch: she is
  removed from the room and gets \<open>returnedToLobby\<close>, and no room is made for her.  The
  branch that would move her tests for \<open>post_game\<close>, which the server never stores
  (\<open>returnToLobby_reachable_never_moves\<close>).
\<close>

theorem returnToLobby_after_game_only_leaves:
  "gameStateOf ''ab12'' demoFinished = Some Finished
   \<and> gameStateOf ''ab12'' demoRematch = Some Finished
   \<and> map wantsToPlayAgain (playersOf ''ab12'' demoRematch) = [True, False]
   \<and> snd (returnToLobby ''sockA'' ''ab12'' (\<lambda>i. i) 7 demoRematch)
       = [(ToOthers ''ab12'' ''sockA'', PlayerLeft ''sockA''), (ToSocket ''sockA'', ReturnedToLobby)]
   \<and> map fst (rooms (fst (returnToLobby ''sockA'' ''ab12'' (\<lambda>i. i) 7 demoRematch))) = [''ab12'']
   \<and> map playerId (playersOf ''ab12'' (fst (returnToLobby ''sockA'' ''ab12'' (\<lambda>i. i) 7 demoRematch)))
       = [''sockB'']"
  by code_simp


section \<open>getDifficultySettings on other keys\<close>

lemma getDifficultySettings_unknown:
  "d \<noteq> ''easy'' \<Longrightarrow> d \<noteq> ''medium'' \<Longrightarrow> d \<noteq> ''hard'' \<Longrightarrow> d \<notin> set objectPrototypeKeys \<Longrightarrow>
   getDifficultySettings d = Settings 16 16 40"
  by (simp add: getDifficultySettings_def settings_def)

lemma createRoom_keeps_difficulty:
  "map_option difficulty (map_of (rooms (fst (createRoom sid u newSeed d name s))) (generateRoomId u))
     = Some d"
  by (simp add: createRoom_def Let_def newRoomFor_def update_conv')


text \<open>
  C10 fails on the code for the keys an object literal inherits.  \<open>settings['constructor']\<close>
  is the inherited, truthy \<open>Object\<close>, so the fallback to \<open>settings.medium\<close> is not taken;
  \<open>createRoom\<close> stores the key as it comes, and \<open>startGame\<close> on such a room throws instead
  of starting a medium game.  For every other unknown key the medium settings are returned
  (\<open>getDifficultySettings_unknown\<close>).
\<close>

theorem getDifficultySettings_inherited_key:
  "getDifficultySettings ''constructor'' = Inherited ''constructor''
   \<and> generateRoomId (\<lambda>i. i) = ''abcd''
   \<and> map_option difficulty
        (map_of (rooms (fst (createRoom ''sockA'' (\<lambda>i. i) 5 ''constructor'' ''Ann'' initialServer)))
           ''abcd'') = Some ''constructor''
   \<and> threw (startGame demoSin ''sockA'' ''ab12'' 0
              (demoServer (demoRoom ''constructor'' Ready [playerA, playerB]) Map.empty))"
  by code_simp

end
